theory Spec2Isabelle
  imports Complex_Main "HOL-Library.Word"
begin

section \<open>JavaScript strings and the regular expressions the maskers use\<close>

text \<open>
  A JavaScript string is a sequence of UTF-16 code units (integers from 0 to 65535); the
  regular expressions of the source have no \<^verbatim>\<open>u\<close> flag, so they match code unit
  by code unit.
\<close>

type_synonym cu = int
type_synonym jsstring = "cu list"

definition js :: "string \<Rightarrow> jsstring" where
  "js s = map of_char s"

text \<open>A character class is a list of inclusive code unit ranges.\<close>

type_synonym cls = "(cu \<times> cu) list"

definition in_cls :: "cu \<Rightarrow> cls \<Rightarrow> bool" where
  "in_cls c k = list_ex (\<lambda>r. fst r \<le> c \<and> c \<le> snd r) k"

definition lit :: "char \<Rightarrow> cls" where
  "lit c = [(of_char c, of_char c)]"

definition digit :: cls where
  "digit = [(48, 57)]"

definition upper :: cls where
  "upper = [(65, 90)]"

definition lower :: cls where
  "lower = [(97, 122)]"

text \<open>\<^verbatim>\<open>\w\<close> is \<^verbatim>\<open>[A-Za-z0-9_]\<close>.\<close>

definition wordc :: cls where
  "wordc = upper @ lower @ digit @ lit CHR ''_''"

text \<open>
  \<^verbatim>\<open>\s\<close>: the WhiteSpace and LineTerminator code points of ECMAScript
  (TAB, LF, VT, FF, CR, SP, NBSP, U+1680, U+2000..U+200A, LS, PS, U+202F, U+205F, U+3000,
  BOM).
\<close>

definition spacec :: cls where
  "spacec = [(9, 13), (32, 32), (160, 160), (5760, 5760), (8192, 8202), (8232, 8233),
            (8239, 8239), (8287, 8287), (12288, 12288), (65279, 65279)]"

text \<open>
  The fragment of the regular expression syntax that the source uses: classes, sequence,
  alternation, the greedy optional group \<^verbatim>\<open>(?:r)?\<close>, greedy counted repetition of
  a class (\<^verbatim>\<open>{m,n}\<close>, with no upper bound for \<^verbatim>\<open>+\<close>, \<^verbatim>\<open>*\<close> and \<^verbatim>\<open>{m,}\<close>),
  the word boundary \<^verbatim>\<open>\b\<close> and the anchors \<^verbatim>\<open>^\<close> and \<^verbatim>\<open>$\<close> (no multiline flag).
\<close>

datatype regex =
    Eps
  | Cls cls
  | Seq regex regex
  | Alt regex regex
  | Opt regex
  | Rep nat "nat option" cls
  | WordB
  | Bol
  | Eol

text \<open>
  The state of a match attempt is the code unit before the current position (none at the
  start of the string) and the rest of the input.
\<close>

type_synonym mstate = "cu option \<times> jsstring"

definition is_word :: "cu option \<Rightarrow> bool" where
  "is_word p = (case p of None \<Rightarrow> False | Some c \<Rightarrow> in_cls c wordc)"

definition next_cu :: "jsstring \<Rightarrow> cu option" where
  "next_cu s = (case s of [] \<Rightarrow> None | c # _ \<Rightarrow> Some c)"

text \<open>
  Greedy repetition of a class: as many code units as allowed first, then fewer, down to
  the lower bound.
\<close>

fun rep :: "nat \<Rightarrow> nat option \<Rightarrow> cls \<Rightarrow> cu option \<Rightarrow> jsstring \<Rightarrow> mstate list" where
  "rep m n k p [] = (if m = 0 then [(p, [])] else [])"
| "rep m n k p (c # cs) =
     ((if in_cls c k \<and> n \<noteq> Some 0
       then rep (m - 1) (map_option (\<lambda>j. j - 1) n) k (Some c) cs else [])
      @ (if m = 0 then [(p, c # cs)] else []))"

text \<open>
  The backtracking matcher as a list of successes: every way the expression can match at
  the current position, in the priority order in which a backtracking engine tries them.
  The engine takes the first.
\<close>

fun ms :: "regex \<Rightarrow> cu option \<Rightarrow> jsstring \<Rightarrow> mstate list" where
  "ms Eps p s = [(p, s)]"
| "ms (Cls k) p [] = []"
| "ms (Cls k) p (c # cs) = (if in_cls c k then [(Some c, cs)] else [])"
| "ms (Seq a b) p s = concat (map (\<lambda>(p', s'). ms b p' s') (ms a p s))"
| "ms (Alt a b) p s = ms a p s @ ms b p s"
| "ms (Opt a) p s = ms a p s @ [(p, s)]"
| "ms (Rep m n k) p s = rep m n k p s"
| "ms WordB p s = (if is_word p \<noteq> is_word (next_cu s) then [(p, s)] else [])"
| "ms Bol p s = (if p = None then [(p, s)] else [])"
| "ms Eol p s = (if s = [] then [(p, s)] else [])"

text \<open>
  \<^verbatim>\<open>String.prototype.replace\<close> with a global expression: scan from the left; at each
  position take the first success; replace the matched text by \<open>f\<close> of it and go on after
  the match (one code unit further after an empty match).
\<close>

fun replace :: "regex \<Rightarrow> (jsstring \<Rightarrow> jsstring) \<Rightarrow> cu option \<Rightarrow> jsstring \<Rightarrow> jsstring" where
  "replace r f p [] = (case ms r p [] of [] \<Rightarrow> [] | _ \<Rightarrow> f [])"
| "replace r f p (c # cs) =
     (case ms r p (c # cs) of
        [] \<Rightarrow> c # replace r f (Some c) cs
      | st # _ \<Rightarrow>
          (if length (snd st) < length (c # cs)
           then f (take (length (c # cs) - length (snd st)) (c # cs)) @ replace r f (fst st) (snd st)
           else f [] @ c # replace r f (Some c) cs))"

definition replaceAll :: "regex \<Rightarrow> (jsstring \<Rightarrow> jsstring) \<Rightarrow> jsstring \<Rightarrow> jsstring" where
  "replaceAll r f s = replace r f None s"

text \<open>A sequence of expressions, and a literal string.\<close>

definition seqs :: "regex list \<Rightarrow> regex" where
  "seqs rs = foldr Seq rs Eps"

definition str :: "string \<Rightarrow> regex" where
  "str s = seqs (map (\<lambda>c. Cls (lit c)) s)"

text \<open>\<^verbatim>\<open>String.prototype.includes\<close>.\<close>

fun js_includes :: "jsstring \<Rightarrow> jsstring \<Rightarrow> bool" where
  "js_includes [] sub = (sub = [])"
| "js_includes (c # cs) sub = (take (length sub) (c # cs) = sub \<or> js_includes cs sub)"

section \<open>The regex PII masker (piiMasking.ts)\<close>

text \<open>\<^verbatim>\<open>/\b[A-Za-z0-9._%+-]+@[A-Za-z0-9.-]+\.[A-Z|a-z]{2,}\b/g\<close>\<close>

definition email_re :: regex where
  "email_re = seqs
     [WordB,
      Rep 1 None (upper @ lower @ digit @ lit CHR ''.'' @ lit CHR ''_'' @ lit CHR ''%''
                   @ lit CHR ''+'' @ lit CHR ''-''),
      Cls (lit CHR ''@''),
      Rep 1 None (upper @ lower @ digit @ lit CHR ''.'' @ lit CHR ''-''),
      Cls (lit CHR ''.''),
      Rep 2 None (upper @ lit CHR ''|'' @ lower),
      WordB]"

text \<open>\<^verbatim>\<open>/(?:\+370|8)?\s*(?:\(\d+\))?\s*\d{1,3}\s*\d{2,3}\s*\d{3,4}\s*\d{0,4}/g\<close>\<close>

definition phone_re :: regex where
  "phone_re = seqs
     [Opt (Alt (str ''+370'') (Cls (lit CHR ''8''))),
      Rep 0 None spacec,
      Opt (seqs [Cls (lit CHR ''(''), Rep 1 None digit, Cls (lit CHR '')'')]),
      Rep 0 None spacec,
      Rep 1 (Some 3) digit,
      Rep 0 None spacec,
      Rep 2 (Some 3) digit,
      Rep 0 None spacec,
      Rep 3 (Some 4) digit,
      Rep 0 None spacec,
      Rep 0 (Some 4) digit]"

text \<open>\<^verbatim>\<open>/\b\d{3}\s*\d{3}\s*\d{4}\b/g\<close>\<close>

definition phone_alt_re :: regex where
  "phone_alt_re = seqs
     [WordB, Rep 3 (Some 3) digit, Rep 0 None spacec, Rep 3 (Some 3) digit,
      Rep 0 None spacec, Rep 4 (Some 4) digit, WordB]"

text \<open>\<^verbatim>\<open>/\b\d{8,10}\b/g\<close>\<close>

definition phone_digits_re :: regex where
  "phone_digits_re = seqs [WordB, Rep 8 (Some 10) digit, WordB]"

text \<open>\<^verbatim>\<open>/\b\d{6}-?\d{5}\b/g\<close>\<close>

definition person_code_re :: regex where
  "person_code_re = seqs
     [WordB, Rep 6 (Some 6) digit, Opt (Cls (lit CHR ''-'')), Rep 5 (Some 5) digit, WordB]"

text \<open>\<^verbatim>\<open>/\b\d{4}[-\s]?\d{4}[-\s]?\d{4}[-\s]?\d{4}\b/g\<close>\<close>

definition card_re :: regex where
  "card_re = seqs
     [WordB, Rep 4 (Some 4) digit, Opt (Cls (lit CHR ''-'' @ spacec)),
      Rep 4 (Some 4) digit, Opt (Cls (lit CHR ''-'' @ spacec)),
      Rep 4 (Some 4) digit, Opt (Cls (lit CHR ''-'' @ spacec)),
      Rep 4 (Some 4) digit, WordB]"

text \<open>\<^verbatim>\<open>/\bLT\d{2}\d{5}\d{11}\b/g\<close>\<close>

definition iban_re :: regex where
  "iban_re = seqs
     [WordB, str ''LT'', Rep 2 (Some 2) digit, Rep 5 (Some 5) digit, Rep 11 (Some 11) digit,
      WordB]"

text \<open>\<^verbatim>\<open>/\b\d{16,20}\b/g\<close>\<close>

definition account_digits_re :: regex where
  "account_digits_re = seqs [WordB, Rep 16 (Some 20) digit, WordB]"

text \<open>
  \<^verbatim>\<open>maskSegmentText\<close>: the eight replacements in the order of the source. The two
  replacer callbacks return the placeholder when the match is long enough and the match
  itself otherwise.
\<close>

definition maskSegmentText :: "jsstring \<Rightarrow> jsstring" where
  "maskSegmentText text =
     (let masked = text;
          masked = replaceAll email_re (\<lambda>_. js ''[EMAIL]'') masked;
          masked = replaceAll phone_re (\<lambda>_. js ''[PHONE]'') masked;
          masked = replaceAll phone_alt_re (\<lambda>_. js ''[PHONE]'') masked;
          masked = replaceAll phone_digits_re
                     (\<lambda>m. if length m \<ge> 8 then js ''[PHONE]'' else m) masked;
          masked = replaceAll person_code_re (\<lambda>_. js ''[PERSON_CODE]'') masked;
          masked = replaceAll card_re (\<lambda>_. js ''[CARD_NUMBER]'') masked;
          masked = replaceAll iban_re (\<lambda>_. js ''[ACCOUNT_NUMBER]'') masked;
          masked = replaceAll account_digits_re
                     (\<lambda>m. if length m \<ge> 16 then js ''[ACCOUNT_NUMBER]'' else m) masked
      in masked)"

text \<open>
  \<^verbatim>\<open>maskWithRegex\<close> runs the same eight replacements on the text of the transcription
  and \<^verbatim>\<open>maskSegmentText\<close> on the text of every segment; the other fields are copied.
\<close>

record segment =
  speaker :: jsstring
  s_text :: jsstring
  startTime :: real
  endTime :: real

record transcription =
  t_id :: jsstring
  t_text :: jsstring
  t_timestamp :: jsstring
  t_language :: jsstring
  t_segments :: "segment list"

definition maskWithRegex :: "transcription \<Rightarrow> transcription" where
  "maskWithRegex tr =
     (let maskedText = t_text tr;
          maskedText = replaceAll email_re (\<lambda>_. js ''[EMAIL]'') maskedText;
          maskedText = replaceAll phone_re (\<lambda>_. js ''[PHONE]'') maskedText;
          maskedText = replaceAll phone_alt_re (\<lambda>_. js ''[PHONE]'') maskedText;
          maskedText = replaceAll phone_digits_re
                         (\<lambda>m. if length m \<ge> 8 then js ''[PHONE]'' else m) maskedText;
          maskedText = replaceAll person_code_re (\<lambda>_. js ''[PERSON_CODE]'') maskedText;
          maskedText = replaceAll card_re (\<lambda>_. js ''[CARD_NUMBER]'') maskedText;
          maskedText = replaceAll iban_re (\<lambda>_. js ''[ACCOUNT_NUMBER]'') maskedText;
          maskedText = replaceAll account_digits_re
                         (\<lambda>m. if length m \<ge> 16 then js ''[ACCOUNT_NUMBER]'' else m) maskedText;
          maskedSegments = map (\<lambda>sg. sg\<lparr>s_text := maskSegmentText (s_text sg)\<rparr>) (t_segments tr)
      in tr\<lparr>t_text := maskedText, t_segments := maskedSegments\<rparr>)"

section \<open>The AI-assisted masker (maskPII)\<close>

text \<open>
  What the generation call gives back for one model: it throws (this includes the
  rejection of the 90 second timeout that races it), or it answers with a response. A
  response is an object whose \<^verbatim>\<open>text\<close> is absent, a string or a function that returns
  a string, and whose first candidate may carry a text part; or it is a bare string.
\<close>

datatype text_field = NoText | TextValue jsstring | TextFunction jsstring

datatype response = RObject text_field "jsstring option" | RString jsstring

datatype gen_outcome = Threw | Responded response

datatype mask_error = ApiKeyMissing

text \<open>\<^verbatim>\<open>String.prototype.trim\<close> strips the code units of \<^verbatim>\<open>\s\<close> at both ends.\<close>

definition trim :: "jsstring \<Rightarrow> jsstring" where
  "trim s = rev (dropWhile (\<lambda>c. in_cls c spacec) (rev (dropWhile (\<lambda>c. in_cls c spacec) s)))"

text \<open>\<^verbatim>\<open>/^["']|["']$/g\<close>\<close>

definition quote_re :: regex where
  "quote_re = Alt (Seq Bol (Cls (lit CHR 0x22 @ lit CHR 0x27)))
                  (Seq (Cls (lit CHR 0x22 @ lit CHR 0x27)) Eol)"

text \<open>The three extraction strategies, in the order of the source.\<close>

definition extractText :: "response \<Rightarrow> jsstring" where
  "extractText r =
     (case r of
        RString s \<Rightarrow> s
      | RObject tf cand \<Rightarrow>
          (case tf of
             TextFunction s \<Rightarrow> s
           | TextValue s \<Rightarrow>
               (if s \<noteq> [] then s
                else (case cand of Some c \<Rightarrow> (if c \<noteq> [] then c else []) | None \<Rightarrow> []))
           | NoText \<Rightarrow> (case cand of Some c \<Rightarrow> (if c \<noteq> [] then c else []) | None \<Rightarrow> [])))"

definition cleanText :: "jsstring \<Rightarrow> jsstring" where
  "cleanText s = replaceAll quote_re (\<lambda>_. []) (trim s)"

text \<open>\<^verbatim>\<open>indexOf\<close> (\<open>-1\<close> when absent) and \<^verbatim>\<open>substring\<close> on indices that are not negative.\<close>

fun indexOf_from :: "int \<Rightarrow> jsstring \<Rightarrow> jsstring \<Rightarrow> int" where
  "indexOf_from i [] sub = (if sub = [] then i else -1)"
| "indexOf_from i (c # cs) sub =
     (if take (length sub) (c # cs) = sub then i else indexOf_from (i + 1) cs sub)"

definition indexOf :: "jsstring \<Rightarrow> jsstring \<Rightarrow> int" where
  "indexOf s sub = indexOf_from 0 s sub"

definition substring :: "jsstring \<Rightarrow> nat \<Rightarrow> nat \<Rightarrow> jsstring" where
  "substring s a b =
     (let a' = min a (length s); b' = min b (length s);
          lo = min a' b'; hi = max a' b'
      in take (hi - lo) (drop lo s))"

text \<open>
  The reconciliation of one segment with the masked text: the segment is looked up in
  the original text and the same offsets are cut out of the masked text.
\<close>

definition maskSegment :: "jsstring \<Rightarrow> jsstring \<Rightarrow> segment \<Rightarrow> segment" where
  "maskSegment original maskedText sg =
     (let segmentIndex = indexOf original (s_text sg) in
      if segmentIndex \<ge> 0 then
        (let beforeSegment = substring original 0 (nat segmentIndex);
             maskedBefore = substring maskedText 0
                              (min (length beforeSegment) (length maskedText));
             remainingLength = min (int (length (s_text sg)))
                                   (int (length maskedText) - int (length maskedBefore))
         in if remainingLength > 0
            then sg\<lparr>s_text := substring maskedText (length maskedBefore)
                                   (length maskedBefore + nat remainingLength)\<rparr>
            else sg)
      else sg\<lparr>s_text := maskSegmentText (s_text sg)\<rparr>)"

definition modelNames :: "string list" where
  "modelNames = [''gemini-2.5-flash-preview-native-audio-dialog'', ''gemini-2.5-pro'']"

text \<open>
  The loop over the candidate models. \<open>gen\<close> stands for the generation call: it gets
  the model name and the text that the prompt embeds. The first model whose cleaned text
  is not empty wins; when none does, the regex masker is the result.
\<close>

fun tryModels :: "(string \<Rightarrow> jsstring \<Rightarrow> gen_outcome) \<Rightarrow> string list \<Rightarrow> transcription
                  \<Rightarrow> transcription" where
  "tryModels gen [] tr = maskWithRegex tr"
| "tryModels gen (modelName # rest) tr =
     (case gen modelName (t_text tr) of
        Threw \<Rightarrow> tryModels gen rest tr
      | Responded r \<Rightarrow>
          (let maskedText = cleanText (extractText r) in
           if maskedText = [] then tryModels gen rest tr
           else tr\<lparr>t_text := maskedText,
                   t_segments := map (maskSegment (t_text tr) maskedText) (t_segments tr)\<rparr>))"

text \<open>
  \<^verbatim>\<open>maskPII\<close> first builds the client with \<^verbatim>\<open>getAI\<close>, outside of its
  \<^verbatim>\<open>try\<close> block: without an API key that throws.
\<close>

definition getAI :: "jsstring \<Rightarrow> mask_error + unit" where
  "getAI apiKey = (if apiKey = [] then Inl ApiKeyMissing else Inr ())"

definition maskPII :: "jsstring \<Rightarrow> (string \<Rightarrow> jsstring \<Rightarrow> gen_outcome) \<Rightarrow> transcription
                        \<Rightarrow> mask_error + transcription" where
  "maskPII apiKey gen tr =
     (case getAI apiKey of
        Inl e \<Rightarrow> Inl e
      | Inr _ \<Rightarrow> Inr (tryModels gen modelNames tr))"

text \<open>A model attempt fails when the call throws or the cleaned text is empty.\<close>

definition model_fails :: "gen_outcome \<Rightarrow> bool" where
  "model_fails out =
     (case out of Threw \<Rightarrow> True | Responded r \<Rightarrow> cleanText (extractText r) = [])"

definition failing_gen :: "string \<Rightarrow> jsstring \<Rightarrow> gen_outcome" where
  "failing_gen modelName txt = Threw"

section \<open>Redaction of the generated summary and normalisation of the scores (upload)\<close>

text \<open>\<^verbatim>\<open>/\b[A-Z0-9._%+-]+@[A-Z0-9.-]+\.[A-Z]{2,}\b/gi\<close>: with the \<^verbatim>\<open>i\<close> flag the
  letter ranges match both cases.\<close>

definition summary_email_re :: regex where
  "summary_email_re = seqs
     [WordB,
      Rep 1 None (upper @ lower @ digit @ lit CHR ''.'' @ lit CHR ''_'' @ lit CHR ''%''
                   @ lit CHR ''+'' @ lit CHR ''-''),
      Cls (lit CHR ''@''),
      Rep 1 None (upper @ lower @ digit @ lit CHR ''.'' @ lit CHR ''-''),
      Cls (lit CHR ''.''),
      Rep 2 None (upper @ lower),
      WordB]"

text \<open>\<^verbatim>\<open>/(\+?\d[\d\s().-]{6,}\d)/g\<close>\<close>

definition summary_phone_re :: regex where
  "summary_phone_re = seqs
     [Opt (Cls (lit CHR ''+'')),
      Cls digit,
      Rep 6 None (digit @ spacec @ lit CHR ''('' @ lit CHR '')'' @ lit CHR ''.'' @ lit CHR ''-''),
      Cls digit]"

text \<open>\<^verbatim>\<open>/\b\d{11}\b/g\<close>\<close>

definition summary_code_re :: regex where
  "summary_code_re = seqs [WordB, Rep 11 (Some 11) digit, WordB]"

text \<open>\<^verbatim>\<open>/\bLT\d{2}[A-Z0-9]{10,30}\b/gi\<close>\<close>

definition summary_iban_re :: regex where
  "summary_iban_re = seqs
     [WordB, Cls (lit CHR ''L'' @ lit CHR ''l''), Cls (lit CHR ''T'' @ lit CHR ''t''),
      Rep 2 (Some 2) digit, Rep 10 (Some 30) (upper @ lower @ digit), WordB]"

text \<open>
  The Lithuanian capitals and small letters of the name pattern, by code point:
  U+0104, U+010C, U+0118, U+0116, U+012E, U+0160, U+0172, U+016A, U+017D and the small
  letter that follows each.
\<close>

definition lt_upper :: cls where
  "lt_upper = upper @ [(260, 260), (268, 268), (280, 280), (278, 278), (302, 302),
                       (352, 352), (370, 370), (362, 362), (381, 381)]"

definition lt_lower :: cls where
  "lt_lower = lower @ [(261, 261), (269, 269), (281, 281), (279, 279), (303, 303),
                       (353, 353), (371, 371), (363, 363), (382, 382)]"

definition summary_name_re :: regex where
  "summary_name_re = seqs
     [WordB, Cls lt_upper, Rep 1 None lt_lower, Cls (lit CHR '' ''),
      Cls lt_upper, Rep 1 None lt_lower, WordB]"

text \<open>\<^verbatim>\<open>/\s{2,}/g\<close>\<close>

definition spaces_re :: regex where
  "spaces_re = Rep 2 None spacec"

definition redactSensitiveSummary :: "jsstring \<Rightarrow> jsstring" where
  "redactSensitiveSummary text =
     (if text = [] then text
      else
        (let out = text;
             out = replaceAll summary_email_re (\<lambda>_. js ''[EL. PA'' @ [352] @ js ''TAS]'') out;
             out = replaceAll summary_phone_re (\<lambda>_. js ''[TEL. NR.]'') out;
             out = replaceAll summary_code_re (\<lambda>_. js ''[ASMENS KODAS]'') out;
             out = replaceAll summary_iban_re (\<lambda>_. js ''[IBAN]'') out;
             out = replaceAll summary_name_re
                     (\<lambda>_. js ''[VARDAS PAVARD'' @ [278] @ js '']'') out;
             out = trim (replaceAll spaces_re (\<lambda>_. js '' '') out)
         in out))"

text \<open>
  A JavaScript number: a finite value, an infinity (a literal that overflows), or
  \<^verbatim>\<open>NaN\<close>. \<^verbatim>\<open>Math.min\<close> and \<^verbatim>\<open>Math.max\<close> answer \<^verbatim>\<open>NaN\<close> as soon as an argument is
  \<^verbatim>\<open>NaN\<close>.
\<close>

datatype jsnumber = NaN | NegInfinity | Num real | PosInfinity

fun num_le :: "jsnumber \<Rightarrow> jsnumber \<Rightarrow> bool" where
  "num_le NaN _ = False"
| "num_le _ NaN = False"
| "num_le NegInfinity _ = True"
| "num_le _ PosInfinity = True"
| "num_le (Num a) (Num b) = (a \<le> b)"
| "num_le _ _ = False"

definition math_min :: "jsnumber \<Rightarrow> jsnumber \<Rightarrow> jsnumber" where
  "math_min a b = (if a = NaN \<or> b = NaN then NaN else if num_le a b then a else b)"

definition math_max :: "jsnumber \<Rightarrow> jsnumber \<Rightarrow> jsnumber" where
  "math_max a b = (if a = NaN \<or> b = NaN then NaN else if num_le a b then b else a)"

text \<open>
  The value that \<^verbatim>\<open>JSON.parse\<close> gives for the answer of the analysis model. The handler
  declares it \<^verbatim>\<open>let analysis: any\<close> and validates nothing, so every JSON value is possible.
  The members of an object are kept in the order of the text.
\<close>

datatype json =
    JNull
  | JBool bool
  | JNum jsnumber
  | JStr jsstring
  | JArray "json list"
  | JObject "(jsstring \<times> json) list"

text \<open>
  Reading a property: of \<^verbatim>\<open>null\<close> it throws a \<^verbatim>\<open>TypeError\<close>; of an object it gives the
  member of that name (the last one when the text repeats a name) or \<^verbatim>\<open>undefined\<close>,
  which is \<open>None\<close>; the other values have none of the properties the handler reads.
\<close>

datatype upload_error = TypeError

definition get :: "json \<Rightarrow> jsstring \<Rightarrow> upload_error + json option" where
  "get v k =
     (case v of
        JNull \<Rightarrow> Inl TypeError
      | JObject kvs \<Rightarrow> Inr (map_of (rev kvs) k)
      | _ \<Rightarrow> Inr None)"

text \<open>Truthiness, as \<^verbatim>\<open>||\<close> tests it.\<close>

definition truthy :: "json \<Rightarrow> bool" where
  "truthy v =
     (case v of
        JNull \<Rightarrow> False
      | JBool b \<Rightarrow> b
      | JNum n \<Rightarrow> n \<noteq> NaN \<and> n \<noteq> Num 0
      | JStr s \<Rightarrow> s \<noteq> []
      | _ \<Rightarrow> True)"

text \<open>
  Two conversions are left to the platform: the decimal text of a number
  (\<^verbatim>\<open>Number::toString\<close>) and the number that a numeric literal denotes.
\<close>

record coercions =
  number_to_string :: "jsnumber \<Rightarrow> jsstring"
  literal_value :: "jsstring \<Rightarrow> jsnumber"

text \<open>
  \<^verbatim>\<open>String(v)\<close>: a string is itself; an array is its elements joined by commas, with
  \<^verbatim>\<open>null\<close> written as nothing; an object is \<^verbatim>\<open>[object Object]\<close>, unless it has a member
  named \<^verbatim>\<open>toString\<close>, which hides the method of that name: then the conversion throws
  a \<^verbatim>\<open>TypeError\<close>.
\<close>

fun join :: "jsstring \<Rightarrow> jsstring list \<Rightarrow> jsstring" where
  "join sep [] = []"
| "join sep [x] = x"
| "join sep (x # y # ys) = x @ sep @ join sep (y # ys)"

fun all_or_error :: "(upload_error + 'a) list \<Rightarrow> upload_error + 'a list" where
  "all_or_error [] = Inr []"
| "all_or_error (Inl e # xs) = Inl e"
| "all_or_error (Inr x # xs) =
     (case all_or_error xs of Inl e \<Rightarrow> Inl e | Inr ys \<Rightarrow> Inr (x # ys))"

fun js_String :: "coercions \<Rightarrow> json \<Rightarrow> upload_error + jsstring" where
  "js_String co JNull = Inr (js ''null'')"
| "js_String co (JBool b) = Inr (if b then js ''true'' else js ''false'')"
| "js_String co (JNum n) = Inr (number_to_string co n)"
| "js_String co (JStr s) = Inr s"
| "js_String co (JArray xs) =
     (case all_or_error (map (\<lambda>x. if x = JNull then Inr [] else js_String co x) xs) of
        Inl e \<Rightarrow> Inl e
      | Inr strings \<Rightarrow> Inr (join (js '','') strings))"
| "js_String co (JObject kvs) =
     (if map_of kvs (js ''toString'') \<noteq> None then Inl TypeError
      else Inr (js ''[object Object]''))"

text \<open>
  \<^verbatim>\<open>ToNumber\<close>, which \<^verbatim>\<open>Math.min\<close> applies to its arguments. A string is trimmed; the empty
  string is 0, a numeric literal is its value, anything else is \<^verbatim>\<open>NaN\<close>. An array or
  object is first turned into a string, which can throw.
\<close>

definition decimal_literal_re :: regex where
  "decimal_literal_re =
     (let digits = Rep 1 None digit;
          exponent = Opt (seqs [Cls (lit CHR ''e'' @ lit CHR ''E''), Opt (Cls (lit CHR ''+'' @ lit CHR ''-'')), digits])
      in seqs [Opt (Cls (lit CHR ''+'' @ lit CHR ''-'')),
               Alt (str ''Infinity'')
                 (Alt (seqs [digits, Opt (Cls (lit CHR ''.'')), Rep 0 None digit, exponent])
                      (seqs [Cls (lit CHR ''.''), digits, exponent]))])"

definition numeric_literal_re :: regex where
  "numeric_literal_re =
     seqs [Bol,
           Alt decimal_literal_re
             (Alt (seqs [str ''0'', Cls (lit CHR ''x'' @ lit CHR ''X''), Rep 1 None (digit @ [(65, 70), (97, 102)])])
                (Alt (seqs [str ''0'', Cls (lit CHR ''o'' @ lit CHR ''O''), Rep 1 None [(48, 55)]])
                     (seqs [str ''0'', Cls (lit CHR ''b'' @ lit CHR ''B''), Rep 1 None [(48, 49)]]))),
           Eol]"

definition string_to_number :: "coercions \<Rightarrow> jsstring \<Rightarrow> jsnumber" where
  "string_to_number co s =
     (let t = trim s in
      if t = [] then Num 0
      else if ms numeric_literal_re None t \<noteq> [] then literal_value co t
      else NaN)"

definition toNumber :: "coercions \<Rightarrow> json \<Rightarrow> upload_error + jsnumber" where
  "toNumber co v =
     (case v of
        JNull \<Rightarrow> Inr (Num 0)
      | JBool b \<Rightarrow> Inr (if b then Num 1 else Num 0)
      | JNum n \<Rightarrow> Inr n
      | JStr s \<Rightarrow> Inr (string_to_number co s)
      | _ \<Rightarrow> (case js_String co v of
                Inl e \<Rightarrow> Inl e
              | Inr s \<Rightarrow> Inr (string_to_number co s)))"

text \<open>
  \<^verbatim>\<open>Math.max(0, Math.min(100, score ?? 50))\<close>: only a score that is missing or
  \<^verbatim>\<open>null\<close> becomes 50.
\<close>

definition normalizeScore :: "coercions \<Rightarrow> json option \<Rightarrow> upload_error + jsnumber" where
  "normalizeScore co score =
     (case (case score of
              None \<Rightarrow> Inr (Num 50)
            | Some v \<Rightarrow> (if v = JNull then Inr (Num 50) else toNumber co v)) of
        Inl e \<Rightarrow> Inl e
      | Inr n \<Rightarrow> Inr (math_max (Num 0) (math_min (Num 100) n)))"

text \<open>\<^verbatim>\<open>String(analysis.summary || '')\<close>\<close>

definition summaryString :: "coercions \<Rightarrow> json option \<Rightarrow> upload_error + jsstring" where
  "summaryString co s =
     (case s of
        None \<Rightarrow> Inr []
      | Some v \<Rightarrow> (if truthy v then js_String co v else Inr []))"

text \<open>\<^verbatim>\<open>analysis.warnings || []\<close> and \<^verbatim>\<open>analysis.metrics || []\<close>\<close>

definition or_empty_array :: "json option \<Rightarrow> json" where
  "or_empty_array x =
     (case x of
        None \<Rightarrow> JArray []
      | Some v \<Rightarrow> (if truthy v then v else JArray []))"

text \<open>
  The analysis that the handler builds from the parsed answer. Its \<^verbatim>\<open>id\<close> is drawn at
  random and is a parameter here.
\<close>

record analysisResult =
  r_id :: jsstring
  sentimentScore :: jsnumber
  customerSatisfaction :: jsnumber
  agentPerformance :: jsnumber
  warnings :: json
  summary :: jsstring
  metrics :: json
  complianceChecked :: bool

definition buildAnalysisResult ::
  "coercions \<Rightarrow> jsstring \<Rightarrow> json \<Rightarrow> upload_error + analysisResult" where
  "buildAnalysisResult co rid analysis =
     (case (get analysis (js ''sentimentScore''),
            get analysis (js ''customerSatisfaction''),
            get analysis (js ''agentPerformance''),
            get analysis (js ''summary''),
            get analysis (js ''warnings''),
            get analysis (js ''metrics'')) of
        (Inr a_sentimentScore, Inr a_customerSatisfaction, Inr a_agentPerformance,
         Inr a_summary, Inr a_warnings, Inr a_metrics) \<Rightarrow>
          (case (normalizeScore co a_sentimentScore,
                 normalizeScore co a_customerSatisfaction,
                 normalizeScore co a_agentPerformance,
                 summaryString co a_summary) of
             (Inr sentimentScore', Inr customerSatisfaction', Inr agentPerformance',
              Inr summaryText) \<Rightarrow>
               (let safeSummary = redactSensitiveSummary summaryText
                in Inr \<lparr>r_id = rid,
                         sentimentScore = sentimentScore',
                         customerSatisfaction = customerSatisfaction',
                         agentPerformance = agentPerformance',
                         warnings = or_empty_array a_warnings,
                         summary = safeSummary,
                         metrics = or_empty_array a_metrics,
                         complianceChecked = True\<rparr>)
           | _ \<Rightarrow> Inl TypeError)
      | _ \<Rightarrow> Inl TypeError)"

section \<open>The crypto envelope (encryptForStorage, decryptForStorage)\<close>

type_synonym byte = "8 word"

text \<open>
  The key is a hexadecimal string: \<^verbatim>\<open>key.match(/.{1,2}/g)\<close> cuts it into chunks of
  two code units (\<^verbatim>\<open>.\<close> matches no line terminator), \<^verbatim>\<open>parseInt(chunk, 16)\<close> reads
  each chunk and \<^verbatim>\<open>Uint8Array.from\<close> stores the numbers modulo 256, \<^verbatim>\<open>NaN\<close> as 0.
\<close>

definition line_terminator :: cls where
  "line_terminator = [(10, 10), (13, 13), (8232, 8233)]"

fun hexChunks :: "jsstring \<Rightarrow> jsstring list" where
  "hexChunks [] = []"
| "hexChunks [a] = (if in_cls a line_terminator then [] else [[a]])"
| "hexChunks (a # b # r) =
     (if in_cls a line_terminator then hexChunks (b # r)
      else if in_cls b line_terminator then [a] # hexChunks r
      else [a, b] # hexChunks r)"

definition hex_digit :: cls where
  "hex_digit = digit @ [(65, 70), (97, 102)]"

definition hexval :: "cu \<Rightarrow> int" where
  "hexval c = (if in_cls c digit then c - 48 else if in_cls c upper then c - 55 else c - 87)"

text \<open>
  \<^verbatim>\<open>parseInt(s, 16)\<close>: leading white space is skipped, a sign is read, a
  \<^verbatim>\<open>0x\<close> prefix is dropped, and the longest run of hexadecimal digits is the value;
  \<open>None\<close> is \<^verbatim>\<open>NaN\<close>.
\<close>

definition parseInt16 :: "jsstring \<Rightarrow> int option" where
  "parseInt16 s =
     (let s1 = dropWhile (\<lambda>c. in_cls c spacec) s;
          neg = (case s1 of [] \<Rightarrow> False | c # _ \<Rightarrow> c = 45);
          s2 = (case s1 of [] \<Rightarrow> [] | c # r \<Rightarrow> (if c = 45 \<or> c = 43 then r else s1));
          s3 = (if take 2 s2 = js ''0x'' \<or> take 2 s2 = js ''0X'' then drop 2 s2 else s2);
          ds = takeWhile (\<lambda>c. in_cls c hex_digit) s3
      in if ds = [] then None
         else Some ((if neg then -1 else 1) * foldl (\<lambda>acc d. 16 * acc + hexval d) 0 ds))"

definition toUint8 :: "int option \<Rightarrow> byte" where
  "toUint8 v = (case v of None \<Rightarrow> 0 | Some n \<Rightarrow> word_of_int n)"

definition parseKey :: "jsstring \<Rightarrow> byte list" where
  "parseKey encryptionKey = map (\<lambda>chunk. toUint8 (parseInt16 chunk)) (hexChunks encryptionKey)"

text \<open>
  \<^verbatim>\<open>crypto.subtle.importKey('raw', keyBuffer, {name: 'AES-GCM'}, ...)\<close> accepts a key of
  128, 192 or 256 bits and throws on any other length.
\<close>

definition importKey :: "byte list \<Rightarrow> bool" where
  "importKey keyBuffer =
     (length keyBuffer = 16 \<or> length keyBuffer = 24 \<or> length keyBuffer = 32)"

text \<open>
  Base64 of the Deno standard library. \<^verbatim>\<open>encode\<close> writes three bytes as four
  characters of the alphabet and pads the last group with \<^verbatim>\<open>=\<close>.
\<close>

definition b64char :: "nat \<Rightarrow> cu" where
  "b64char n =
     (if n < 26 then 65 + int n
      else if n < 52 then 97 + (int n - 26)
      else if n < 62 then 48 + (int n - 52)
      else if n = 62 then 43 else 47)"

fun encodeBase64 :: "byte list \<Rightarrow> jsstring" where
  "encodeBase64 [] = []"
| "encodeBase64 [a] =
     [b64char (unat a div 4), b64char ((unat a mod 4) * 16), 61, 61]"
| "encodeBase64 [a, b] =
     [b64char (unat a div 4), b64char ((unat a mod 4) * 16 + unat b div 16),
      b64char ((unat b mod 16) * 4), 61]"
| "encodeBase64 (a # b # c # r) =
     [b64char (unat a div 4), b64char ((unat a mod 4) * 16 + unat b div 16),
      b64char ((unat b mod 16) * 4 + unat c div 64), b64char (unat c mod 64)]
     @ encodeBase64 r"

text \<open>
  \<^verbatim>\<open>decode\<close> is \<^verbatim>\<open>atob\<close> followed by the code of each character: ASCII white space
  is removed, one or two padding characters are dropped when the length is a multiple of
  four, a length of one modulo four or a character outside of the alphabet is an error
  (\<open>None\<close>), and the bits that do not fill a byte are discarded.
\<close>

definition b64index :: "cu \<Rightarrow> nat option" where
  "b64index c =
     (if 65 \<le> c \<and> c \<le> 90 then Some (nat (c - 65))
      else if 97 \<le> c \<and> c \<le> 122 then Some (nat (c - 97) + 26)
      else if 48 \<le> c \<and> c \<le> 57 then Some (nat (c - 48) + 52)
      else if c = 43 then Some 62
      else if c = 47 then Some 63
      else None)"

definition ascii_whitespace :: cls where
  "ascii_whitespace = [(9, 10), (12, 13), (32, 32)]"

definition stripPadding :: "jsstring \<Rightarrow> jsstring" where
  "stripPadding s =
     (if length s mod 4 = 0 \<and> s \<noteq> [] \<and> last s = 61
      then (if butlast s \<noteq> [] \<and> last (butlast s) = 61 then butlast (butlast s)
            else butlast s)
      else s)"

fun decodeSextets :: "nat list \<Rightarrow> byte list" where
  "decodeSextets (w # x # y # z # r) =
     [word_of_nat (w * 4 + x div 16), word_of_nat ((x mod 16) * 16 + y div 4),
      word_of_nat ((y mod 4) * 64 + z)] @ decodeSextets r"
| "decodeSextets [w, x, y] =
     [word_of_nat (w * 4 + x div 16), word_of_nat ((x mod 16) * 16 + y div 4)]"
| "decodeSextets [w, x] = [word_of_nat (w * 4 + x div 16)]"
| "decodeSextets _ = []"

definition decodeBase64 :: "jsstring \<Rightarrow> byte list option" where
  "decodeBase64 b64 =
     (let s = stripPadding (filter (\<lambda>c. \<not> in_cls c ascii_whitespace) b64) in
      if length s mod 4 = 1 then None
      else if list_ex (\<lambda>c. b64index c = None) s then None
      else Some (decodeSextets (map (\<lambda>c. the (b64index c)) s)))"

text \<open>
  \<^verbatim>\<open>TextEncoder.encode\<close>: the string is read as scalar values, a surrogate that is not
  half of a pair becoming U+FFFD, and each scalar value is written in UTF-8.
\<close>

definition is_lead :: "cu \<Rightarrow> bool" where
  "is_lead c = (0xD800 \<le> c \<and> c \<le> 0xDBFF)"

definition is_trail :: "cu \<Rightarrow> bool" where
  "is_trail c = (0xDC00 \<le> c \<and> c \<le> 0xDFFF)"

definition surrogate_pair :: "cu \<Rightarrow> cu \<Rightarrow> int" where
  "surrogate_pair c d = 0x10000 + (c - 0xD800) * 0x400 + (d - 0xDC00)"

fun to_scalars :: "jsstring \<Rightarrow> int list" where
  "to_scalars [] = []"
| "to_scalars [c] = [if is_lead c \<or> is_trail c then 0xFFFD else c]"
| "to_scalars (c # d # cs) =
     (if is_lead c \<and> is_trail d then surrogate_pair c d # to_scalars cs
      else (if is_lead c \<or> is_trail c then 0xFFFD else c) # to_scalars (d # cs))"

definition utf8_bytes :: "int \<Rightarrow> byte list" where
  "utf8_bytes c =
     map word_of_int
       (if c < 0x80 then [c]
        else if c < 0x800 then [0xC0 + c div 0x40, 0x80 + c mod 0x40]
        else if c < 0x10000
        then [0xE0 + c div 0x1000, 0x80 + c div 0x40 mod 0x40, 0x80 + c mod 0x40]
        else [0xF0 + c div 0x40000, 0x80 + c div 0x1000 mod 0x40, 0x80 + c div 0x40 mod 0x40,
              0x80 + c mod 0x40])"

definition textEncoder_encode :: "jsstring \<Rightarrow> byte list" where
  "textEncoder_encode s = concat (map utf8_bytes (to_scalars s))"

text \<open>
  \<^verbatim>\<open>TextDecoder.decode\<close> with its defaults (UTF-8, not fatal, the byte order mark not
  ignored). The decoder of the Encoding Standard keeps the code point read so far, the
  number of continuation bytes still needed and the bounds for the next byte; a byte
  that does not fit gives U+FFFD and, when it came in place of a continuation byte, is
  read again as the start of a character. A first code point U+FEFF is dropped, and the
  code points are written in UTF-16.
\<close>

function utf8_decoder :: "int \<Rightarrow> nat \<Rightarrow> int \<Rightarrow> int \<Rightarrow> byte list \<Rightarrow> int list" where
  "utf8_decoder cp needed lo hi [] = (if needed \<noteq> 0 then [0xFFFD] else [])"
| "utf8_decoder cp needed lo hi (b # bs) =
     (let x = uint b in
      if needed = 0 then
        (if x \<le> 0x7F then x # utf8_decoder 0 0 0x80 0xBF bs
         else if 0xC2 \<le> x \<and> x \<le> 0xDF then utf8_decoder (x - 0xC0) 1 0x80 0xBF bs
         else if 0xE0 \<le> x \<and> x \<le> 0xEF
         then utf8_decoder (x - 0xE0) 2 (if x = 0xE0 then 0xA0 else 0x80)
                (if x = 0xED then 0x9F else 0xBF) bs
         else if 0xF0 \<le> x \<and> x \<le> 0xF4
         then utf8_decoder (x - 0xF0) 3 (if x = 0xF0 then 0x90 else 0x80)
                (if x = 0xF4 then 0x8F else 0xBF) bs
         else 0xFFFD # utf8_decoder 0 0 0x80 0xBF bs)
      else if x < lo \<or> hi < x then 0xFFFD # utf8_decoder 0 0 0x80 0xBF (b # bs)
      else
        (let cp' = cp * 0x40 + (x - 0x80) in
         if needed = 1 then cp' # utf8_decoder 0 0 0x80 0xBF bs
         else utf8_decoder cp' (needed - 1) 0x80 0xBF bs))"
  by pat_completeness auto

termination
  by (relation "measure (\<lambda>(cp, needed, lo, hi, bs). 2 * length bs + (if needed = 0 then 0 else 1))")
     auto

definition from_scalars :: "int list \<Rightarrow> jsstring" where
  "from_scalars cs =
     concat (map (\<lambda>c. if c < 0x10000 then [c]
                        else [0xD800 + (c - 0x10000) div 0x400, 0xDC00 + (c - 0x10000) mod 0x400])
                 cs)"

definition textDecoder_decode :: "byte list \<Rightarrow> jsstring" where
  "textDecoder_decode bytes =
     (let out = utf8_decoder 0 0 0x80 0xBF bytes
      in from_scalars (case out of [] \<Rightarrow> [] | c # cs \<Rightarrow> (if c = 0xFEFF then cs else out)))"

text \<open>
  A string is a list of code units of sixteen bits. It is well formed when every
  surrogate is half of a pair, a lead followed by a trail.
\<close>

definition code_unit :: "cu \<Rightarrow> bool" where
  "code_unit c = (0 \<le> c \<and> c < 0x10000)"

fun well_formed :: "jsstring \<Rightarrow> bool" where
  "well_formed [] = True"
| "well_formed [c] = (\<not> is_lead c \<and> \<not> is_trail c)"
| "well_formed (c # d # cs) =
     (if is_lead c then is_trail d \<and> well_formed cs
      else \<not> is_trail c \<and> well_formed (d # cs))"

text \<open>
  AES-GCM of Web Crypto is the one primitive left to the platform. Decryption answers
  \<open>None\<close> when it throws (authentication failure, or a ciphertext shorter than the
  tag).
\<close>

record platform =
  aes_gcm_encrypt :: "byte list \<Rightarrow> byte list \<Rightarrow> byte list \<Rightarrow> byte list"
  aes_gcm_decrypt :: "byte list \<Rightarrow> byte list \<Rightarrow> byte list \<Rightarrow> byte list option"

text \<open>
  \<^verbatim>\<open>encryptForStorage\<close> of the upload function. \<open>envKey\<close> is the configured
  \<^verbatim>\<open>ENCRYPTION_KEY\<close> and \<open>iv\<close> the twelve bytes that \<^verbatim>\<open>getRandomValues\<close> draws.
  Without a key, and when anything throws, the text comes back unchanged.
\<close>

definition encryptForStorage :: "platform \<Rightarrow> jsstring option \<Rightarrow> byte list \<Rightarrow> jsstring \<Rightarrow> jsstring" where
  "encryptForStorage pf envKey iv text =
     (case envKey of
        None \<Rightarrow> text
      | Some encryptionKey \<Rightarrow>
          (if encryptionKey = [] then text
           else
             (let keyBuffer = parseKey encryptionKey in
              if \<not> importKey keyBuffer then text
              else
                (let data = textEncoder_encode text;
                     encrypted = aes_gcm_encrypt pf keyBuffer iv data;
                     combined = iv @ encrypted
                 in encodeBase64 combined))))"

text \<open>
  \<^verbatim>\<open>decryptForStorage\<close> of the transcription function. Whatever throws inside is caught
  and thrown again as \<^verbatim>\<open>new Error(`Failed to decrypt data: ${error.message}`)\<close>; the
  cause keeps apart what threw.
\<close>

datatype cause = InvalidKey | InvalidBase64 | OperationError

datatype decrypt_error = Failed_to_decrypt_data cause

definition decryptForStorage :: "platform \<Rightarrow> jsstring \<Rightarrow> jsstring \<Rightarrow> decrypt_error + jsstring" where
  "decryptForStorage pf ciphertext encryptionKey =
     (let keyBuffer = parseKey encryptionKey in
      if \<not> importKey keyBuffer then Inl (Failed_to_decrypt_data InvalidKey)
      else
        (case decodeBase64 ciphertext of
           None \<Rightarrow> Inl (Failed_to_decrypt_data InvalidBase64)
         | Some combined \<Rightarrow>
             (let iv = take 12 combined;
                  encrypted = drop 12 combined
              in case aes_gcm_decrypt pf keyBuffer iv encrypted of
                   None \<Rightarrow> Inl (Failed_to_decrypt_data OperationError)
                 | Some decrypted \<Rightarrow> Inr (textDecoder_decode decrypted))))"

text \<open>The message of the error that \<^verbatim>\<open>decryptForStorage\<close> throws starts with a fixed text.\<close>

definition error_message :: "(cause \<Rightarrow> string) \<Rightarrow> decrypt_error \<Rightarrow> string" where
  "error_message inner e =
     (case e of Failed_to_decrypt_data c \<Rightarrow> ''Failed to decrypt data: '' @ inner c)"

text \<open>
  \<^verbatim>\<open>decryptFromStorage\<close> of the analysis function, for a payload
  \<^verbatim>\<open>{encrypted: true, data}\<close> whose \<open>data\<close> is a string: the same steps, with a check of
  the length of the decoded bytes before AES-GCM and no \<^verbatim>\<open>catch\<close>. A payload with empty
  \<open>data\<close> is returned as it is. The decrypted text goes to \<^verbatim>\<open>JSON.parse\<close>, which is
  left to the caller here.
\<close>

datatype payload_error =
    EncryptionKeyNotSet
  | ImportKeyFailed
  | AtobFailed
  | Invalid_encrypted_payload
  | DecryptFailed

datatype payload_result = PayloadItself | DecryptedText jsstring

definition decryptFromStorage ::
  "platform \<Rightarrow> jsstring option \<Rightarrow> jsstring \<Rightarrow> payload_error + payload_result" where
  "decryptFromStorage pf envKey data =
     (if data = [] then Inr PayloadItself
      else
        (case envKey of
           None \<Rightarrow> Inl EncryptionKeyNotSet
         | Some encryptionKey \<Rightarrow>
             (if encryptionKey = [] then Inl EncryptionKeyNotSet
              else
                (let keyBuffer = parseKey encryptionKey in
                 if \<not> importKey keyBuffer then Inl ImportKeyFailed
                 else
                   (case decodeBase64 data of
                      None \<Rightarrow> Inl AtobFailed
                    | Some combined \<Rightarrow>
                        (if length combined < 13 then Inl Invalid_encrypted_payload
                         else
                           (let iv = take 12 combined;
                                ciphertext = drop 12 combined
                            in case aes_gcm_decrypt pf keyBuffer iv ciphertext of
                                 None \<Rightarrow> Inl DecryptFailed
                               | Some decrypted \<Rightarrow>
                                   Inr (DecryptedText (textDecoder_decode decrypted)))))))))"

text \<open>A key of 256 bits is written as 64 hexadecimal digits.\<close>

definition valid_key_256 :: "jsstring \<Rightarrow> bool" where
  "valid_key_256 k = (length k = 64 \<and> list_all (\<lambda>c. in_cls c hex_digit) k)"

text \<open>The encoding without its padding, to reason about the decoder.\<close>

fun encodeUnpadded :: "byte list \<Rightarrow> jsstring" where
  "encodeUnpadded [] = []"
| "encodeUnpadded [a] = [b64char (unat a div 4), b64char ((unat a mod 4) * 16)]"
| "encodeUnpadded [a, b] =
     [b64char (unat a div 4), b64char ((unat a mod 4) * 16 + unat b div 16),
      b64char ((unat b mod 16) * 4)]"
| "encodeUnpadded (a # b # c # r) =
     [b64char (unat a div 4), b64char ((unat a mod 4) * 16 + unat b div 16),
      b64char ((unat b mod 16) * 4 + unat c div 64), b64char (unat c mod 64)]
     @ encodeUnpadded r"

section \<open>Persisting the transcription and the analysis (upload)\<close>

text \<open>
  What the \<^verbatim>\<open>transcription\<close> column holds: the envelope
  \<^verbatim>\<open>{encrypted: true, data}\<close> or the transcription object itself.
\<close>

datatype stored_transcription = Envelope jsstring | PlainShape transcription

record transcription_update =
  u_transcription :: stored_transcription
  u_status :: string

text \<open>
  The step of the upload function from the transcription it has built (\<open>fullText\<close>,
  \<open>segments\<close>) to the update of the row. The source says of it: "Store transcription
  directly (PII masking removed)". \<open>stringify\<close> is \<^verbatim>\<open>JSON.stringify\<close>, \<open>rid\<close> the
  random id and \<open>lang\<close> the language of the model's answer.
\<close>

definition rawTranscriptionForStorage ::
  "jsstring \<Rightarrow> jsstring \<Rightarrow> jsstring \<Rightarrow> jsstring option \<Rightarrow> segment list \<Rightarrow> transcription" where
  "rawTranscriptionForStorage rid fullText timestamp lang segments =
     (let rawTranscriptionResult =
            \<lparr>t_id = rid, t_text = fullText, t_timestamp = timestamp,
             t_language = (case lang of None \<Rightarrow> js ''lt''
                           | Some l \<Rightarrow> (if l \<noteq> [] then l else js ''lt'')),
             t_segments = segments\<rparr>
      in rawTranscriptionResult\<lparr>t_text := fullText, t_segments := segments\<rparr>)"

definition persistTranscription ::
  "platform \<Rightarrow> jsstring option \<Rightarrow> byte list \<Rightarrow> (transcription \<Rightarrow> jsstring) \<Rightarrow> transcription
   \<Rightarrow> transcription_update" where
  "persistTranscription pf envKey iv stringify raw =
     (let transcriptionToEncrypt = stringify raw;
          encryptedTranscriptionData = encryptForStorage pf envKey iv transcriptionToEncrypt;
          transcriptionResultForDB =
            (if encryptedTranscriptionData \<noteq> transcriptionToEncrypt
             then Envelope encryptedTranscriptionData
             else PlainShape raw)
      in \<lparr>u_transcription = transcriptionResultForDB, u_status = ''analyzing''\<rparr>)"

text \<open>
  The end of the upload function: the row gets the analysis, and the response carries
  either the whole analysis or, when the serialised payload is empty or longer than
  250000 code units (\<^verbatim>\<open>safeJsonResponse\<close>), its metadata only.
\<close>

record final_update =
  f_transcription :: stored_transcription
  f_analysis :: analysisResult
  f_status :: string

text \<open>\<^verbatim>\<open>analysisResult.warnings?.length || 0\<close>\<close>

definition length_or_zero :: "json \<Rightarrow> json" where
  "length_or_zero v =
     (case v of
        JArray xs \<Rightarrow> JNum (Num (real (length xs)))
      | JStr s \<Rightarrow> JNum (Num (real (length s)))
      | JObject kvs \<Rightarrow>
          (case map_of (rev kvs) (js ''length'') of
             None \<Rightarrow> JNum (Num 0)
           | Some l \<Rightarrow> (if truthy l then l else JNum (Num 0)))
      | _ \<Rightarrow> JNum (Num 0))"

record analysis_meta =
  m_id :: jsstring
  m_sentimentScore :: jsnumber
  m_customerSatisfaction :: jsnumber
  m_agentPerformance :: jsnumber
  m_warningsCount :: json
  m_summaryLength :: nat

datatype response_analysis = FullAnalysis analysisResult | AnalysisMeta analysis_meta

definition usedFallback :: "jsstring \<Rightarrow> bool" where
  "usedFallback fullJson = (fullJson = [] \<or> length fullJson > 250000)"

text \<open>
  A \<^verbatim>\<open>TypeError\<close> leaves the handler before the row update; its \<^verbatim>\<open>catch\<close> answers 500.
\<close>

definition finishUpload ::
  "coercions \<Rightarrow> stored_transcription \<Rightarrow> jsstring \<Rightarrow> json \<Rightarrow> (analysisResult \<Rightarrow> jsstring)
   \<Rightarrow> upload_error + final_update \<times> response_analysis" where
  "finishUpload co transcriptionResultForDB rid analysis fullJsonOf =
     (case buildAnalysisResult co rid analysis of
        Inl e \<Rightarrow> Inl e
      | Inr analysisResult \<Rightarrow>
          (let upd = \<lparr>f_transcription = transcriptionResultForDB, f_analysis = analysisResult,
                      f_status = ''completed''\<rparr>;
               resp =
                 (if usedFallback (fullJsonOf analysisResult)
                  then AnalysisMeta
                         \<lparr>m_id = r_id analysisResult,
                          m_sentimentScore = sentimentScore analysisResult,
                          m_customerSatisfaction = customerSatisfaction analysisResult,
                          m_agentPerformance = agentPerformance analysisResult,
                          m_warningsCount = length_or_zero (warnings analysisResult),
                          m_summaryLength = length (summary analysisResult)\<rparr>
                  else FullAnalysis analysisResult)
           in Inr (upd, resp)))"

text \<open>A score is in range when it is a finite number from 0 to 100.\<close>

definition in_range :: "jsnumber \<Rightarrow> bool" where
  "in_range x = (case x of Num r \<Rightarrow> 0 \<le> r \<and> r \<le> 100 | _ \<Rightarrow> False)"

definition response_scores :: "response_analysis \<Rightarrow> jsnumber list" where
  "response_scores resp =
     (case resp of
        FullAnalysis r \<Rightarrow> [sentimentScore r, customerSatisfaction r, agentPerformance r]
      | AnalysisMeta m \<Rightarrow> [m_sentimentScore m, m_customerSatisfaction m, m_agentPerformance m])"

definition response_summary :: "response_analysis \<Rightarrow> jsstring option" where
  "response_summary resp =
     (case resp of FullAnalysis r \<Rightarrow> Some (summary r) | AnalysisMeta m \<Rightarrow> None)"

section \<open>The read path (transcription function) and the delete path (delete-record)\<close>

record call_record =
  rec_id :: string
  user_id :: "string option"
  audio_id :: string
  rec_transcription :: "stored_transcription option"

datatype body =
    NoBody
  | ErrorBody string
  | TranscriptionBody transcription
  | UndefinedFields
  | OkBody

record http_response =
  status :: nat
  body :: body

record request =
  meth :: string
  authHeader :: "string option"
  recordId :: string

text \<open>
  The surroundings of the read handler: \<open>getUser\<close> is \<^verbatim>\<open>supabase.auth.getUser()\<close> for
  the token of the request (\<open>None\<close> for an error or no user), \<open>select_policy\<close> the
  row-level policy that the database applies to a \<^verbatim>\<open>SELECT\<close> of the caller-bound
  client, \<open>json_parse\<close> is \<^verbatim>\<open>JSON.parse\<close> (\<open>None\<close> when it throws), and \<open>regenerate\<close>
  stands for the branch of \<^verbatim>\<open>POST\<close> that transcribes a record which has no
  transcription yet (the message of the error it throws, or the transcription).
\<close>

record read_env =
  getUser :: "string \<Rightarrow> string option"
  select_policy :: "string \<Rightarrow> call_record \<Rightarrow> bool"
  encryption_key :: "jsstring option"
  crypto :: platform
  json_parse :: "jsstring \<Rightarrow> transcription option"
  regenerate :: "call_record \<Rightarrow> string + transcription"

definition respond :: "nat \<Rightarrow> body \<Rightarrow> http_response" where
  "respond st b = \<lparr>status = st, body = b\<rparr>"

text \<open>
  \<^verbatim>\<open>.from('call_records').select('*').eq('id', recordId).single()\<close> through a client
  that is bound to the caller: the row, when it exists and the policy shows it.
\<close>

definition select_single ::
  "(call_record \<Rightarrow> bool) \<Rightarrow> (string \<rightharpoonup> call_record) \<Rightarrow> string \<Rightarrow> call_record option" where
  "select_single visible records i =
     (case records i of None \<Rightarrow> None | Some r \<Rightarrow> (if visible r then Some r else None))"

definition returnTranscription :: "read_env \<Rightarrow> stored_transcription \<Rightarrow> http_response" where
  "returnTranscription env transcriptionData =
     (case transcriptionData of
        PlainShape t \<Rightarrow> respond 200 (TranscriptionBody t)
      | Envelope d \<Rightarrow>
          (case encryption_key env of
             None \<Rightarrow> respond 200 UndefinedFields
           | Some encryptionKey \<Rightarrow>
               (if d = [] \<or> encryptionKey = [] then respond 200 UndefinedFields
                else
                  (case decryptForStorage (crypto env) d encryptionKey of
                     Inl e \<Rightarrow> respond 500 (ErrorBody ''Failed to decrypt transcription'')
                   | Inr decrypted \<Rightarrow>
                       (case json_parse env decrypted of
                          None \<Rightarrow> respond 500 (ErrorBody ''Failed to decrypt transcription'')
                        | Some t \<Rightarrow> respond 200 (TranscriptionBody t))))))"

definition serveTranscription ::
  "read_env \<Rightarrow> (string \<rightharpoonup> call_record) \<Rightarrow> request \<Rightarrow> http_response" where
  "serveTranscription env records req =
     (if meth req = ''OPTIONS'' then respond 204 NoBody
      else if meth req \<noteq> ''GET'' \<and> meth req \<noteq> ''POST''
      then respond 405 (ErrorBody ''Method not allowed'')
      else
        (case authHeader req of
           None \<Rightarrow> respond 401 (ErrorBody ''Authorization header required'')
         | Some h \<Rightarrow>
             (case getUser env h of
                None \<Rightarrow> respond 401 (ErrorBody ''Unauthorized. Please log in.'')
              | Some u \<Rightarrow>
                  (if recordId req = [] \<or> recordId req = ''transcription''
                   then respond 400 (ErrorBody ''Record ID is required'')
                   else
                     (case select_single (select_policy env u) records (recordId req) of
                        None \<Rightarrow> respond 404 (ErrorBody ''Transcription not found'')
                      | Some data \<Rightarrow>
                          (case rec_transcription data of
                             None \<Rightarrow>
                               (if meth req = ''GET''
                                then respond 404
                                       (ErrorBody ''Transcription not available for this record'')
                                else
                                  (case regenerate env data of
                                     Inl msg \<Rightarrow> respond 500 (ErrorBody msg)
                                   | Inr t \<Rightarrow> respond 200 (TranscriptionBody t)))
                           | Some transcriptionData \<Rightarrow>
                               returnTranscription env transcriptionData))))))"

text \<open>
  The row-level policy that the migration "Add User Authentication" puts on
  \<^verbatim>\<open>call_records\<close> for \<^verbatim>\<open>SELECT\<close>, \<^verbatim>\<open>UPDATE\<close> and \<^verbatim>\<open>DELETE\<close>, after dropping "Allow all
  operations for MVP": \<^verbatim>\<open>auth.uid() = user_id\<close>, or a row of \<^verbatim>\<open>user_profiles\<close> for
  \<^verbatim>\<open>auth.uid()\<close> with the role \<^verbatim>\<open>admin\<close>.
\<close>

definition own_or_admin :: "(string \<rightharpoonup> string) \<Rightarrow> string \<Rightarrow> call_record \<Rightarrow> bool" where
  "own_or_admin profs uid r = (user_id r = Some uid \<or> profs uid = Some ''admin'')"

text \<open>
  The delete handler works on the table of records, the table of user profiles (the role
  of each user) and the stored audio objects. With a service role key its queries bypass
  the row-level policies; without one they go through the caller-bound client.
  \<open>d_getUser\<close> is \<^verbatim>\<open>userClient.auth.getUser()\<close>: an error with its message, no user, or
  the user. \<open>storage_remove\<close> is what the removal of the audio objects of an audio id
  leaves in the bucket (its failures are logged and ignored), \<open>delete_error\<close> an error
  that the database reports for the \<^verbatim>\<open>DELETE\<close>. The handler is not alone on the
  database: \<open>meanwhile\<close> is what other requests have done to it between the lookup of the
  record and the \<^verbatim>\<open>DELETE\<close>.
\<close>

record db =
  records :: "string \<rightharpoonup> call_record"
  profiles :: "string \<rightharpoonup> string"
  files :: "string list"

datatype auth_result = AuthError string | NoUser | User string

record delete_env =
  d_getUser :: "string \<Rightarrow> auth_result"
  configured :: bool
  serviceRoleKey :: bool
  d_select_policy :: "string \<Rightarrow> call_record \<Rightarrow> bool"
  d_delete_policy :: "string \<Rightarrow> call_record \<Rightarrow> bool"
  profile_policy :: "string \<Rightarrow> bool"
  storage_remove :: "string \<Rightarrow> string list \<Rightarrow> string list"
  delete_error :: "string option"
  meanwhile :: "db \<Rightarrow> db"

record delete_request =
  d_meth :: string
  d_authHeader :: "string option"
  body_id :: "string option"

definition isAdmin :: "delete_env \<Rightarrow> db \<Rightarrow> string \<Rightarrow> bool" where
  "isAdmin env d u =
     ((serviceRoleKey env \<or> profile_policy env u) \<and> profiles d u = Some ''admin'')"

text \<open>
  From the removal of the audio objects to the response.
  \<^verbatim>\<open>.delete().eq("id", id).select()\<close> answers the rows it deleted: the row of that id
  when it is there and the policy lets the caller delete it. When it answers none the
  handler looks the record up again and takes a record that it no longer finds as
  deleted.
\<close>

definition deleteRow ::
  "delete_env \<Rightarrow> db \<Rightarrow> string \<Rightarrow> string \<Rightarrow> call_record \<Rightarrow> http_response \<times> db" where
  "deleteRow env d u i record =
     (let d1 = (if serviceRoleKey env \<and> audio_id record \<noteq> []
                then d\<lparr>files := storage_remove env (audio_id record) (files d)\<rparr> else d);
          d2 = meanwhile env d1
      in case delete_error env of
           Some msg \<Rightarrow> (respond 500 (ErrorBody (take 500 (''Failed to delete record: '' @ msg))), d2)
         | None \<Rightarrow>
             (let delData =
                    (case records d2 i of
                       None \<Rightarrow> []
                     | Some r \<Rightarrow>
                         (if serviceRoleKey env \<or> d_delete_policy env u r then [r] else []));
                  d3 = (case delData of [] \<Rightarrow> d2
                        | _ # _ \<Rightarrow> d2\<lparr>records := (records d2)(i := None)\<rparr>)
              in case delData of
                   [] \<Rightarrow>
                     (case select_single (\<lambda>r. serviceRoleKey env \<or> d_select_policy env u r)
                             (records d3) i of
                        Some checkRecord \<Rightarrow>
                          (respond 500
                             (ErrorBody
                                ''Record exists but deletion was blocked. Check RLS policies.''),
                           d3)
                      | None \<Rightarrow> (respond 200 OkBody, d3))
                 | _ # _ \<Rightarrow> (respond 200 OkBody, d3)))"

definition deleteRecord :: "delete_env \<Rightarrow> db \<Rightarrow> delete_request \<Rightarrow> http_response \<times> db" where
  "deleteRecord env d req =
     (if d_meth req = ''OPTIONS'' then (respond 204 NoBody, d)
      else if d_meth req \<noteq> ''POST'' then (respond 405 (ErrorBody ''Method not allowed''), d)
      else
        (case d_authHeader req of
           None \<Rightarrow> (respond 401 (ErrorBody ''Authorization header required''), d)
         | Some h \<Rightarrow>
             (if \<not> configured env
              then (respond 500
                      (ErrorBody
                         ''Server misconfigured (missing SUPABASE_URL or SUPABASE_ANON_KEY)''),
                    d)
              else
                (case d_getUser env h of
                   AuthError msg \<Rightarrow>
                     (respond 401 (ErrorBody (''Unauthorized. Please log in. '' @ msg)), d)
                 | NoUser \<Rightarrow> (respond 401 (ErrorBody ''Unauthorized. Please log in. ''), d)
                 | User u \<Rightarrow>
                     (case body_id req of
                        None \<Rightarrow> (respond 400 (ErrorBody ''Record id is required''), d)
                      | Some i \<Rightarrow>
                          (if i = [] then (respond 400 (ErrorBody ''Record id is required''), d)
                           else
                             (case select_single
                                     (\<lambda>r. serviceRoleKey env \<or> d_select_policy env u r)
                                     (records d) i of
                                None \<Rightarrow> (respond 404 (ErrorBody ''Record not found''), d)
                              | Some record \<Rightarrow>
                                  (if user_id record \<noteq> Some u \<and> \<not> isAdmin env d u
                                   then (respond 403 (ErrorBody ''Forbidden''), d)
                                   else deleteRow env d u i record))))))))"

section \<open>Stand-ins for the surroundings, to run the functions on concrete inputs\<close>

text \<open>
  A stand-in for AES-GCM with the same interface and the same contract: the ciphertext
  is the data followed by a tag of sixteen bytes, and decryption throws unless the tag is
  there.
\<close>

definition toy_tag :: "byte list \<Rightarrow> byte list \<Rightarrow> byte list" where
  "toy_tag k iv = take 16 (iv @ k @ replicate 16 0)"

definition toy_encrypt :: "byte list \<Rightarrow> byte list \<Rightarrow> byte list \<Rightarrow> byte list" where
  "toy_encrypt k iv d = d @ toy_tag k iv"

definition toy_decrypt :: "byte list \<Rightarrow> byte list \<Rightarrow> byte list \<Rightarrow> byte list option" where
  "toy_decrypt k iv c =
     (if 16 \<le> length c \<and> drop (length c - 16) c = toy_tag k iv
      then Some (take (length c - 16) c) else None)"

definition toy_platform :: platform where
  "toy_platform =
     \<lparr>aes_gcm_encrypt = toy_encrypt, aes_gcm_decrypt = toy_decrypt\<rparr>"

definition key0 :: jsstring where
  "key0 = js ''000102030405060708090a0b0c0d0e0f101112131415161718191A1B1C1D1E1F''"

definition iv0 :: "byte list" where
  "iv0 = [1, 2, 3, 4, 5, 6, 7, 8, 9, 10, 11, 12]"

definition stringify0 :: "transcription \<Rightarrow> jsstring" where
  "stringify0 tr = js ''{text:'' @ t_text tr @ js ''}''"

definition plain_transcript :: "jsstring \<Rightarrow> transcription" where
  "plain_transcript txt =
     \<lparr>t_id = [], t_text = txt, t_timestamp = [], t_language = js ''lt'', t_segments = []\<rparr>"

text \<open>
  The callers \<open>alice\<close>, \<open>bob\<close> and the administrator \<open>root\<close>, a record of \<open>alice\<close>, and
  the database with the policy of the migration.
\<close>

definition token_user :: "string \<Rightarrow> string option" where
  "token_user h = (if h = ''Bearer bob'' then Some ''bob''
                   else if h = ''Bearer alice'' then Some ''alice''
                   else if h = ''Bearer root'' then Some ''root'' else None)"

definition token_auth :: "string \<Rightarrow> auth_result" where
  "token_auth h = (case token_user h of None \<Rightarrow> AuthError ''invalid JWT'' | Some u \<Rightarrow> User u)"

definition profiles0 :: "string \<rightharpoonup> string" where
  "profiles0 = [''root'' \<mapsto> ''admin'', ''alice'' \<mapsto> ''user'', ''bob'' \<mapsto> ''user'']"

definition no_regenerate :: "call_record \<Rightarrow> string + transcription" where
  "no_regenerate r = Inl ''GEMINI_API_KEY not set''"

definition raw0 :: transcription where
  "raw0 =
     rawTranscriptionForStorage (js ''id1'') (js ''jonas@example.com'') (js ''2026'') None
       [\<lparr>speaker = js ''Agentas'', s_text = js ''jonas@example.com'', startTime = 0,
         endTime = 2\<rparr>]"

definition parse0 :: "jsstring \<Rightarrow> transcription option" where
  "parse0 s = (if s = stringify0 raw0 then Some raw0 else None)"

definition read_env0 :: read_env where
  "read_env0 =
     \<lparr>getUser = token_user, select_policy = own_or_admin profiles0,
      encryption_key = Some key0, crypto = toy_platform, json_parse = parse0,
      regenerate = no_regenerate\<rparr>"

definition alice_record :: call_record where
  "alice_record =
     \<lparr>rec_id = ''r1'', user_id = Some ''alice'', audio_id = ''a1'',
      rec_transcription =
        Some (u_transcription (persistTranscription toy_platform (Some key0) iv0 stringify0 raw0))\<rparr>"

definition records0 :: "string \<rightharpoonup> call_record" where
  "records0 = [''r1'' \<mapsto> alice_record]"

definition read_request :: "string \<Rightarrow> string \<Rightarrow> request" where
  "read_request who i = \<lparr>meth = ''GET'', authHeader = Some (''Bearer '' @ who), recordId = i\<rparr>"

definition keep_files :: "string \<Rightarrow> string list \<Rightarrow> string list" where
  "keep_files a fs = fs"

definition yes :: "string \<Rightarrow> bool" where
  "yes u = True"

definition delete_env0 :: delete_env where
  "delete_env0 =
     \<lparr>d_getUser = token_auth, configured = True, serviceRoleKey = True,
      d_select_policy = own_or_admin profiles0, d_delete_policy = own_or_admin profiles0,
      profile_policy = yes, storage_remove = keep_files, delete_error = None,
      meanwhile = (\<lambda>d. d)\<rparr>"

text \<open>Another request that deletes the record \<open>r1\<close> in the meantime.\<close>

definition delete_env1 :: delete_env where
  "delete_env1 = delete_env0\<lparr>meanwhile := (\<lambda>d. d\<lparr>records := (records d)(''r1'' := None)\<rparr>)\<rparr>"

definition db0 :: db where
  "db0 = \<lparr>records = records0, profiles = profiles0, files = []\<rparr>"

definition delete_request0 :: "string \<Rightarrow> string \<Rightarrow> delete_request" where
  "delete_request0 who i =
     \<lparr>d_meth = ''POST'', d_authHeader = Some (''Bearer '' @ who), body_id = Some i\<rparr>"

text \<open>
  A plaintext with letters outside ASCII, a surrogate pair and a U+FEFF that is not at
  the start.
\<close>

definition plain0 :: jsstring where
  "plain0 = js ''{text:'' @ [0x161, 0x20AC, 0xD83D, 0xDE00, 0xFEFF] @ js ''}''"

text \<open>
  Stand-ins for the two conversions of the platform, and an answer of the analysis model
  whose first score is a string that is no number and whose last score is out of range.
\<close>

definition co0 :: coercions where
  "co0 = \<lparr>number_to_string = (\<lambda>n. js ''0''), literal_value = (\<lambda>s. Num 0)\<rparr>"

definition analysis0 :: json where
  "analysis0 =
     JObject [(js ''sentimentScore'', JStr (js ''abc'')),
              (js ''customerSatisfaction'', JNum (Num 80)),
              (js ''agentPerformance'', JNum (Num 250)),
              (js ''summary'', JStr (js ''Klientas jonas@example.com patenkintas'')),
              (js ''warnings'', JArray []),
              (js ''metrics'', JArray [])]"



section \<open>The meaning of a match\<close>

text \<open>The code unit before the position that is reached after \<open>w\<close>.\<close>

definition prev_after :: "cu option \<Rightarrow> jsstring \<Rightarrow> cu option" where
  "prev_after p w = (if w = [] then p else Some (last w))"

text \<open>A number of repetitions within the bounds \<^verbatim>\<open>{m,n}\<close>.\<close>

definition count_ok :: "nat \<Rightarrow> nat option \<Rightarrow> nat \<Rightarrow> bool" where
  "count_ok m n l = (m \<le> l \<and> (case n of None \<Rightarrow> True | Some j \<Rightarrow> l \<le> j))"

text \<open>
  What it means that an expression matches the text \<open>w\<close> at a position with the code
  unit \<open>p\<close> before it and the text \<open>v\<close> after the match. The matcher \<open>ms\<close>
  lists exactly these matches (lemma \<open>ms_sem\<close>).
\<close>

fun sem :: "regex \<Rightarrow> cu option \<Rightarrow> jsstring \<Rightarrow> jsstring \<Rightarrow> bool" where
  "sem Eps p w v = (w = [])"
| "sem (Cls k) p w v = (\<exists>c. w = [c] \<and> in_cls c k)"
| "sem (Seq a b) p w v =
     (\<exists>w1 w2. w = w1 @ w2 \<and> sem a p w1 (w2 @ v) \<and> sem b (prev_after p w1) w2 v)"
| "sem (Alt a b) p w v = (sem a p w v \<or> sem b p w v)"
| "sem (Opt a) p w v = (sem a p w v \<or> w = [])"
| "sem (Rep m n k) p w v = (list_all (\<lambda>c. in_cls c k) w \<and> count_ok m n (length w))"
| "sem WordB p w v = (w = [] \<and> is_word p \<noteq> is_word (next_cu v))"
| "sem Bol p w v = (w = [] \<and> p = None)"
| "sem Eol p w v = (w = [] \<and> v = [])"









text \<open>The scalar values: the code points that are not surrogates.\<close>

definition scalar_value :: "int \<Rightarrow> bool" where
  "scalar_value c = (0 \<le> c \<and> c < 0x110000 \<and> \<not> (0xD800 \<le> c \<and> c \<le> 0xDFFF))"

section \<open>Properties\<close>

subsection \<open>Base64 decoding undoes encoding\<close>

lemma b64index_b64char: "n < 64 \<Longrightarrow> b64index (b64char n) = Some n"
  by (auto simp: b64index_def b64char_def)

lemma b64char_not_pad: "b64char n \<noteq> 61"
  by (auto simp: b64char_def)

lemma b64char_not_space: "\<not> in_cls (b64char n) ascii_whitespace"
  by (auto simp: b64char_def in_cls_def ascii_whitespace_def)

lemma pad_not_space: "\<not> in_cls 61 ascii_whitespace"
  by (simp add: in_cls_def ascii_whitespace_def)

lemma encode_no_space: "filter (\<lambda>c. \<not> in_cls c ascii_whitespace) (encodeBase64 bs) = encodeBase64 bs"
  by (induction bs rule: encodeBase64.induct) (simp_all add: b64char_not_space pad_not_space)

lemma encode_length: "length (encodeBase64 bs) mod 4 = 0"
  by (induction bs rule: encodeBase64.induct) simp_all

lemma encode_split:
  "encodeBase64 bs = encodeUnpadded bs @ replicate ((3 - length bs mod 3) mod 3) 61"
proof (induction bs rule: encodeBase64.induct)
  case (4 a b c r)
  have "length (a # b # c # r) mod 3 = length r mod 3" by simp
  with 4 show ?case by simp
qed (simp_all add: numeral_2_eq_2)

lemma byte_bound: "unat (a :: byte) < 256"
  using unsigned_less [of a, where 'a = nat] by simp

lemma unpadded_nonempty: "bs \<noteq> [] \<Longrightarrow> encodeUnpadded bs \<noteq> []"
  by (cases bs rule: encodeUnpadded.cases) simp_all

lemma unpadded_last: "encodeUnpadded bs \<noteq> [] \<Longrightarrow> last (encodeUnpadded bs) \<noteq> 61"
  by (induction bs rule: encodeUnpadded.induct) (simp_all add: b64char_not_pad)

lemma strip_encode: "stripPadding (encodeBase64 bs) = encodeUnpadded bs"
proof (cases "bs = []")
  case True
  then show ?thesis by (simp add: stripPadding_def)
next
  case False
  have len: "length (encodeUnpadded bs @ replicate ((3 - length bs mod 3) mod 3) 61) mod 4 = 0"
    using encode_length [of bs] by (simp only: encode_split)
  have r: "(3 - length bs mod 3) mod 3 = 0 \<or> (3 - length bs mod 3) mod 3 = 1 \<or> (3 - length bs mod 3) mod 3 = 2"
    by arith
  have u: "encodeUnpadded bs \<noteq> []" "last (encodeUnpadded bs) \<noteq> 61"
    using unpadded_nonempty [OF False] unpadded_last by simp_all
  from r show ?thesis
  proof (elim disjE)
    assume "(3 - length bs mod 3) mod 3 = 0"
    with len u show ?thesis
      by (simp add: encode_split [of bs] stripPadding_def)
  next
    assume "(3 - length bs mod 3) mod 3 = 1"
    with len u show ?thesis
      by (simp add: encode_split [of bs] stripPadding_def butlast_append)
  next
    assume "(3 - length bs mod 3) mod 3 = 2"
    with len u show ?thesis
      by (simp add: encode_split [of bs] stripPadding_def butlast_append numeral_2_eq_2)
  qed
qed

lemma sb1: "a < 256 \<Longrightarrow> a div 4 < (64::nat)" by simp
lemma sb2: "a mod 4 * 16 < (64::nat)"
proof -
  have "a mod 4 < 4" by simp
  then show ?thesis by linarith
qed
lemma sb3: "b < 256 \<Longrightarrow> a mod 4 * 16 + b div 16 < (64::nat)"
proof -
  assume "b < 256"
  then have "b div 16 < 16" by simp
  moreover have "a mod 4 < 4" by simp
  ultimately show ?thesis by linarith
qed
lemma sb4: "b mod 16 * 4 < (64::nat)"
proof -
  have "b mod 16 < 16" by simp
  then show ?thesis by linarith
qed
lemma sb5: "c < 256 \<Longrightarrow> b mod 16 * 4 + c div 64 < (64::nat)"
proof -
  assume "c < 256"
  then have "c div 64 < 4" by simp
  moreover have "b mod 16 < 16" by simp
  ultimately show ?thesis by linarith
qed
lemma j1: "a div 4 * 4 + a mod 4 * 16 div 16 = (a::nat)" by simp
lemma j2: "b < 256 \<Longrightarrow> a div 4 * 4 + (a mod 4 * 16 + b div 16) div 16 = (a::nat)"
proof -
  assume "b < 256"
  then have "b div 16 < 16" by simp
  then have "(a mod 4 * 16 + b div 16) div 16 = a mod 4" by simp
  then show ?thesis by simp
qed
lemma j3: "b < 256 \<Longrightarrow> (a mod 4 * 16 + b div 16) mod 16 * 16 + b mod 16 * 4 div 4 = (b::nat)"
proof -
  assume "b < 256"
  then have "b div 16 < 16" by simp
  then have "(a mod 4 * 16 + b div 16) mod 16 = b div 16" by simp
  then show ?thesis by simp
qed
lemma j4: "b < 256 \<Longrightarrow> c < 256 \<Longrightarrow> (a mod 4 * 16 + b div 16) mod 16 * 16 + (b mod 16 * 4 + c div 64) div 4 = (b::nat)"
proof -
  assume "b < 256" "c < 256"
  then have "b div 16 < 16" "c div 64 < 4" by simp_all
  then have "(a mod 4 * 16 + b div 16) mod 16 = b div 16" "(b mod 16 * 4 + c div 64) div 4 = b mod 16" by simp_all
  then show ?thesis by simp
qed
lemma j5: "c < 256 \<Longrightarrow> (b mod 16 * 4 + c div 64) mod 4 * 64 + c mod 64 = (c::nat)"
proof -
  assume "c < 256"
  then have "c div 64 < 4" by simp
  then have "(b mod 16 * 4 + c div 64) mod 4 = c div 64" by simp
  then show ?thesis by simp
qed

lemmas sextet_bounds = sb1 [OF byte_bound] sb2 sb3 [OF byte_bound] sb4 sb5 [OF byte_bound]
  mod_less_divisor

lemmas sextet_join = j1 j2 [OF byte_bound] j3 [OF byte_bound] j4 [OF byte_bound byte_bound]
  j5 [OF byte_bound]

lemma unpadded_length: "length (encodeUnpadded bs) mod 4 \<noteq> Suc 0"
  by (induction bs rule: encodeUnpadded.induct) simp_all

lemma unpadded_index: "\<not> list_ex (\<lambda>c. b64index c = None) (encodeUnpadded bs)"
  by (induction bs rule: encodeUnpadded.induct) (simp_all add: b64index_b64char sextet_bounds)

lemma decode_unpadded:
  "decodeSextets (map (\<lambda>c. the (b64index c)) (encodeUnpadded bs)) = bs"
proof (induction bs rule: encodeUnpadded.induct)
  case 1
  show ?case by simp
next
  case (2 a)
  have "decodeSextets (map (\<lambda>c. the (b64index c)) (encodeUnpadded [a])) = [word_of_nat (unat a)]"
    by (simp only: encodeUnpadded.simps list.map b64index_b64char sextet_bounds option.sel
        decodeSextets.simps sextet_join)
  then show ?case by simp
next
  case (3 a b)
  have "decodeSextets (map (\<lambda>c. the (b64index c)) (encodeUnpadded [a, b]))
    = [word_of_nat (unat a), word_of_nat (unat b)]"
    by (simp only: encodeUnpadded.simps list.map b64index_b64char sextet_bounds option.sel
        decodeSextets.simps sextet_join)
  then show ?case by simp
next
  case (4 a b c r)
  have "decodeSextets (map (\<lambda>c. the (b64index c)) (encodeUnpadded (a # b # c # r)))
    = [word_of_nat (unat a), word_of_nat (unat b), word_of_nat (unat c)]
      @ decodeSextets (map (\<lambda>c. the (b64index c)) (encodeUnpadded r))"
    by (simp only: encodeUnpadded.simps list.map map_append append.simps b64index_b64char
        sextet_bounds option.sel decodeSextets.simps sextet_join)
  with 4 show ?case by simp
qed

lemma base64_roundtrip: "decodeBase64 (encodeBase64 bs) = Some bs"
  by (simp add: decodeBase64_def Let_def encode_no_space strip_encode unpadded_length unpadded_index
      decode_unpadded)

lemma hex_not_terminator: "in_cls c hex_digit \<Longrightarrow> \<not> in_cls c line_terminator"
  by (auto simp: in_cls_def hex_digit_def digit_def line_terminator_def)

lemma hexChunks_length:
  "list_all (\<lambda>c. \<not> in_cls c line_terminator) s \<Longrightarrow> length (hexChunks s) = (length s + 1) div 2"
  by (induction s rule: hexChunks.induct) simp_all

lemma parseKey_length: "valid_key_256 k \<Longrightarrow> length (parseKey k) = 32"
proof -
  assume v: "valid_key_256 k"
  then have "list_all (\<lambda>c. \<not> in_cls c line_terminator) k"
    by (auto simp: valid_key_256_def list_all_iff hex_not_terminator)
  from hexChunks_length [OF this] v show ?thesis
    by (simp add: parseKey_def valid_key_256_def)
qed

subsection \<open>Decoding undoes the encoding of a well-formed string\<close>

lemma uint_byte: "0 \<le> x \<Longrightarrow> x < 256 \<Longrightarrow> uint (word_of_int x :: byte) = x"
  by (simp add: uint_word_of_int take_bit_int_eq_self)

lemma step1: "uint b1 = c \<Longrightarrow> c < 0x80 \<Longrightarrow>
  utf8_decoder 0 0 0x80 0xBF (b1 # bs) = c # utf8_decoder 0 0 0x80 0xBF bs"
  by (simp add: Let_def)

lemma step2:
  "uint b1 = 0xC0 + q \<Longrightarrow> 2 \<le> q \<Longrightarrow> q < 32 \<Longrightarrow> uint b2 = 0x80 + r \<Longrightarrow> 0 \<le> r \<Longrightarrow> r < 64 \<Longrightarrow>
   utf8_decoder 0 0 0x80 0xBF (b1 # b2 # bs) = (q * 0x40 + r) # utf8_decoder 0 0 0x80 0xBF bs"
  by (simp add: Let_def)

lemma step3:
  "uint b1 = 0xE0 + p \<Longrightarrow> 0 \<le> p \<Longrightarrow> p < 16 \<Longrightarrow> uint b2 = 0x80 + q \<Longrightarrow> 0 \<le> q \<Longrightarrow> q < 64 \<Longrightarrow>
   (p = 0 \<longrightarrow> 32 \<le> q) \<Longrightarrow> (p = 13 \<longrightarrow> q < 32) \<Longrightarrow>
   uint b3 = 0x80 + r \<Longrightarrow> 0 \<le> r \<Longrightarrow> r < 64 \<Longrightarrow>
   utf8_decoder 0 0 0x80 0xBF (b1 # b2 # b3 # bs) =
     ((p * 0x40 + q) * 0x40 + r) # utf8_decoder 0 0 0x80 0xBF bs"
  by (auto simp add: Let_def)

lemma step4:
  "uint b1 = 0xF0 + n \<Longrightarrow> 0 \<le> n \<Longrightarrow> n < 5 \<Longrightarrow> uint b2 = 0x80 + p \<Longrightarrow> 0 \<le> p \<Longrightarrow> p < 64 \<Longrightarrow>
   (n = 0 \<longrightarrow> 16 \<le> p) \<Longrightarrow> (n = 4 \<longrightarrow> p < 16) \<Longrightarrow>
   uint b3 = 0x80 + q \<Longrightarrow> 0 \<le> q \<Longrightarrow> q < 64 \<Longrightarrow>
   uint b4 = 0x80 + r \<Longrightarrow> 0 \<le> r \<Longrightarrow> r < 64 \<Longrightarrow>
   utf8_decoder 0 0 0x80 0xBF (b1 # b2 # b3 # b4 # bs) =
     (((n * 0x40 + p) * 0x40 + q) * 0x40 + r) # utf8_decoder 0 0 0x80 0xBF bs"
  by (auto simp add: Let_def)

lemma div4096: "(c::int) div 0x1000 = c div 0x40 div 0x40"
  using zdiv_zmult2_eq [of 64 c 64] by simp

lemma div262144: "(c::int) div 0x40000 = c div 0x40 div 0x40 div 0x40"
  using zdiv_zmult2_eq [of 64 c 64] zdiv_zmult2_eq [of 64 c 4096] by simp

lemma three_bytes:
  fixes c :: int
  assumes "0x800 \<le> c" "c < 0x10000" "c < 0xD800 \<or> 0xDFFF < c"
  defines "m \<equiv> c div 64"
  defines "p \<equiv> m div 64" and "q \<equiv> m mod 64" and "r \<equiv> c mod 64"
  shows "(p * 0x40 + q) * 0x40 + r = c" "0 \<le> p" "p < 16" "p = 0 \<longrightarrow> 32 \<le> q"
    "p = 13 \<longrightarrow> q < 32"
proof -
  have 1: "c = m * 64 + r" "0 \<le> r" "r < 64" by (simp_all add: m_def r_def)
  have 2: "m = p * 64 + q" "0 \<le> q" "q < 64" by (simp_all add: p_def q_def)
  show "(p * 0x40 + q) * 0x40 + r = c" using 1 2 by simp
  show "0 \<le> p" using 1 2 assms(1) by linarith
  show "p < 16" using 1 2 assms(2) by linarith
  show "p = 0 \<longrightarrow> 32 \<le> q" using 1 2 assms(1) by linarith
  show "p = 13 \<longrightarrow> q < 32" using 1 2 assms(2,3) by linarith
qed

lemma four_bytes:
  fixes c :: int
  assumes "0x10000 \<le> c" "c < 0x110000"
  defines "m \<equiv> c div 64"
  defines "k \<equiv> m div 64"
  defines "n \<equiv> k div 64" and "p \<equiv> k mod 64" and "q \<equiv> m mod 64" and "r \<equiv> c mod 64"
  shows "((n * 0x40 + p) * 0x40 + q) * 0x40 + r = c" "0 \<le> n" "n < 5" "n = 0 \<longrightarrow> 16 \<le> p"
    "n = 4 \<longrightarrow> p < 16"
proof -
  have 1: "c = m * 64 + r" "0 \<le> r" "r < 64" by (simp_all add: m_def r_def)
  have 2: "m = k * 64 + q" "0 \<le> q" "q < 64" by (simp_all add: k_def q_def)
  have 3: "k = n * 64 + p" "0 \<le> p" "p < 64" by (simp_all add: n_def p_def)
  show "((n * 0x40 + p) * 0x40 + q) * 0x40 + r = c" using 1 2 3 by simp
  show "0 \<le> n" using 1 2 3 assms(1) by linarith
  show "n < 5" using 1 2 3 assms(2) by linarith
  show "n = 0 \<longrightarrow> 16 \<le> p" using 1 2 3 assms(1) by linarith
  show "n = 4 \<longrightarrow> p < 16" using 1 2 3 assms(2) by linarith
qed

lemma decode_scalar:
  assumes sv: "scalar_value c"
  shows "utf8_decoder 0 0 0x80 0xBF (utf8_bytes c @ bs) = c # utf8_decoder 0 0 0x80 0xBF bs"
proof -
  from sv have c0: "0 \<le> c" and c1: "c < 0x110000" and ns: "c < 0xD800 \<or> 0xDFFF < c"
    by (auto simp add: scalar_value_def)
  consider (a) "c < 0x80" | (b) "0x80 \<le> c" "c < 0x800" | (c) "0x800 \<le> c" "c < 0x10000"
    | (d) "0x10000 \<le> c" by linarith
  then show ?thesis
  proof cases
    case a
    have b: "utf8_bytes c = [word_of_int c]" using a by (simp add: utf8_bytes_def)
    have u: "uint (word_of_int c :: byte) = c" using a c0 by (intro uint_byte) simp_all
    show ?thesis unfolding b append.simps by (rule step1 [OF u a])
  next
    case b
    define q where "q = c div 0x40"
    define r where "r = c mod 0x40"
    have c: "q * 0x40 + r = c" by (simp add: q_def r_def)
    have q: "2 \<le> q" "q < 32" using b by (simp_all add: q_def)
    have r: "0 \<le> r" "r < 64" by (simp_all add: r_def)
    have bb: "utf8_bytes c = [word_of_int (0xC0 + q), word_of_int (0x80 + r)]"
      using b by (simp add: utf8_bytes_def q_def r_def)
    have u1: "uint (word_of_int (0xC0 + q) :: byte) = 0xC0 + q" using q by (intro uint_byte) simp_all
    have u2: "uint (word_of_int (0x80 + r) :: byte) = 0x80 + r" using r by (intro uint_byte) simp_all
    show ?thesis unfolding bb append.simps using step2 [OF u1 q u2 r, of bs] by (simp only: c)
  next
    case c
    define p where "p = c div 0x40 div 0x40"
    define q where "q = c div 0x40 mod 0x40"
    define r where "r = c mod 0x40"
    note t = three_bytes [OF c ns, folded p_def q_def r_def]
    have q: "0 \<le> q" "q < 64" by (simp_all add: q_def)
    have r: "0 \<le> r" "r < 64" by (simp_all add: r_def)
    have bb: "utf8_bytes c = [word_of_int (0xE0 + p), word_of_int (0x80 + q), word_of_int (0x80 + r)]"
      using c by (simp add: utf8_bytes_def div4096 p_def q_def r_def)
    have u1: "uint (word_of_int (0xE0 + p) :: byte) = 0xE0 + p" using t(2,3) by (intro uint_byte) simp_all
    have u2: "uint (word_of_int (0x80 + q) :: byte) = 0x80 + q" using q by (intro uint_byte) simp_all
    have u3: "uint (word_of_int (0x80 + r) :: byte) = 0x80 + r" using r by (intro uint_byte) simp_all
    show ?thesis unfolding bb append.simps
      using step3 [OF u1 t(2,3) u2 q t(4,5) u3 r, of bs] by (simp only: t(1))
  next
    case d
    define n where "n = c div 0x40 div 0x40 div 0x40"
    define p where "p = c div 0x40 div 0x40 mod 0x40"
    define q where "q = c div 0x40 mod 0x40"
    define r where "r = c mod 0x40"
    note t = four_bytes [OF d c1, folded n_def p_def q_def r_def]
    have p: "0 \<le> p" "p < 64" by (simp_all add: p_def)
    have q: "0 \<le> q" "q < 64" by (simp_all add: q_def)
    have r: "0 \<le> r" "r < 64" by (simp_all add: r_def)
    have bb: "utf8_bytes c = [word_of_int (0xF0 + n), word_of_int (0x80 + p), word_of_int (0x80 + q),
                              word_of_int (0x80 + r)]"
      using d by (simp add: utf8_bytes_def div4096 div262144 n_def p_def q_def r_def)
    have u1: "uint (word_of_int (0xF0 + n) :: byte) = 0xF0 + n" using t(2,3) by (intro uint_byte) simp_all
    have u2: "uint (word_of_int (0x80 + p) :: byte) = 0x80 + p" using p by (intro uint_byte) simp_all
    have u3: "uint (word_of_int (0x80 + q) :: byte) = 0x80 + q" using q by (intro uint_byte) simp_all
    have u4: "uint (word_of_int (0x80 + r) :: byte) = 0x80 + r" using r by (intro uint_byte) simp_all
    show ?thesis unfolding bb append.simps
      using step4 [OF u1 t(2,3) u2 p t(4,5) u3 q u4 r, of bs] by (simp only: t(1))
  qed
qed

lemma decode_scalars:
  "list_all scalar_value cs \<Longrightarrow> utf8_decoder 0 0 0x80 0xBF (concat (map utf8_bytes cs)) = cs"
  by (induction cs) (simp_all add: decode_scalar)

lemma pair_scalar:
  assumes "is_lead c" "is_trail d"
  shows "scalar_value (surrogate_pair c d)" "\<not> surrogate_pair c d < 0x10000"
    "0xD800 + (surrogate_pair c d - 0x10000) div 0x400 = c"
    "0xDC00 + (surrogate_pair c d - 0x10000) mod 0x400 = d"
    "surrogate_pair c d \<noteq> 0xFEFF"
proof -
  define u where "u = c - 0xD800"
  define v where "v = d - 0xDC00"
  have b: "0 \<le> u" "u < 0x400" "0 \<le> v" "v < 0x400"
    using assms by (simp_all add: is_lead_def is_trail_def u_def v_def)
  have e: "surrogate_pair c d - 0x10000 = u * 0x400 + v"
    by (simp add: surrogate_pair_def u_def v_def)
  have x: "surrogate_pair c d = 0x10000 + (u * 0x400 + v)" using e by simp
  show "scalar_value (surrogate_pair c d)" unfolding scalar_value_def x using b by linarith
  show "\<not> surrogate_pair c d < 0x10000" unfolding x using b by linarith
  show "surrogate_pair c d \<noteq> 0xFEFF" unfolding x using b by linarith
  have "(u * 0x400 + v) div 0x400 = u" using b(3,4) by simp
  then show "0xD800 + (surrogate_pair c d - 0x10000) div 0x400 = c" unfolding e by (simp add: u_def)
  have "(u * 0x400 + v) mod 0x400 = v" using b(3,4) by simp
  then show "0xDC00 + (surrogate_pair c d - 0x10000) mod 0x400 = d" unfolding e by (simp add: v_def)
qed

lemma single_scalar: "code_unit c \<Longrightarrow> \<not> is_lead c \<Longrightarrow> \<not> is_trail c \<Longrightarrow> scalar_value c"
  unfolding code_unit_def is_lead_def is_trail_def scalar_value_def by linarith

lemma to_scalars_valid:
  "list_all code_unit s \<Longrightarrow> well_formed s \<Longrightarrow> list_all scalar_value (to_scalars s)"
  by (induction s rule: to_scalars.induct)
     (auto simp add: pair_scalar single_scalar split: if_splits)

lemma from_to_scalars:
  "list_all code_unit s \<Longrightarrow> well_formed s \<Longrightarrow> from_scalars (to_scalars s) = s"
  by (induction s rule: to_scalars.induct)
     (auto simp add: from_scalars_def pair_scalar code_unit_def split: if_splits)

lemma to_scalars_head:
  "well_formed s \<Longrightarrow> take 1 s \<noteq> [0xFEFF] \<Longrightarrow> take 1 (to_scalars s) \<noteq> [0xFEFF]"
  by (induction s rule: to_scalars.induct)
     (auto simp add: pair_scalar split: if_splits)

lemma text_roundtrip:
  assumes "list_all code_unit s" "well_formed s" "take 1 s \<noteq> [0xFEFF]"
  shows "textDecoder_decode (textEncoder_encode s) = s"
proof -
  have d: "utf8_decoder 0 0 0x80 0xBF (textEncoder_encode s) = to_scalars s"
    unfolding textEncoder_encode_def by (rule decode_scalars [OF to_scalars_valid [OF assms(1,2)]])
  have h: "take 1 (to_scalars s) \<noteq> [0xFEFF]" by (rule to_scalars_head [OF assms(2,3)])
  have "(case to_scalars s of [] \<Rightarrow> [] | c # cs \<Rightarrow> (if c = 0xFEFF then cs else to_scalars s))
        = to_scalars s"
    using h by (cases "to_scalars s") auto
  then show ?thesis
    unfolding textDecoder_decode_def d Let_def by (simp add: from_to_scalars [OF assms(1,2)])
qed

subsection \<open>The crypto envelope\<close>

lemma roundtrip_general:
  assumes aead: "\<forall>k iv d. aes_gcm_decrypt pf k iv (aes_gcm_encrypt pf k iv d) = Some d"
    and iv: "length iv = 12"
    and key: "valid_key_256 K"
  shows "decryptForStorage pf (encryptForStorage pf (Some K) iv P) K =
           Inr (textDecoder_decode (textEncoder_encode P))"
proof -
  have "importKey (parseKey K)" using parseKey_length [OF key] by (simp add: importKey_def)
  moreover have "K \<noteq> []" using key by (auto simp: valid_key_256_def)
  ultimately show ?thesis
    using aead iv
    by (simp add: encryptForStorage_def decryptForStorage_def Let_def base64_roundtrip)
qed

lemma toy_aead_law:
  "\<forall>k iv d. aes_gcm_decrypt toy_platform k iv (aes_gcm_encrypt toy_platform k iv d) = Some d"
  by (auto simp add: toy_platform_def toy_decrypt_def toy_encrypt_def toy_tag_def)

lemma key0_valid: "valid_key_256 key0"
  by code_simp

lemma iv0_length: "length iv0 = 12"
  by (simp add: iv0_def)

text \<open>
  Claim C2, two plaintexts that do not come back: a surrogate that is not half of a pair
  is encoded as U+FFFD, and a U+FEFF at the start is dropped by the decoder.
\<close>
theorem roundtrip_loses_surrogate_counterexample:
  "valid_key_256 key0 \<and> length iv0 = 12
   \<and> decryptForStorage toy_platform
       (encryptForStorage toy_platform (Some key0) iv0 [0x61, 0xD800, 0x62]) key0
     = Inr [0x61, 0xFFFD, 0x62]
   \<and> decryptForStorage toy_platform
       (encryptForStorage toy_platform (Some key0) iv0 [0x61, 0xD800, 0x62]) key0
     \<noteq> Inr [0x61, 0xD800, 0x62]
   \<and> decryptForStorage toy_platform
       (encryptForStorage toy_platform (Some key0) iv0 [0xFEFF, 0x61]) key0
     = Inr [0x61]"
proof -
  have 1: "textDecoder_decode (textEncoder_encode [0x61, 0xD800, 0x62]) = [0x61, 0xFFFD, 0x62]"
    by code_simp
  have 2: "textDecoder_decode (textEncoder_encode [0xFEFF, 0x61]) = [0x61]"
    by code_simp
  show ?thesis
    unfolding roundtrip_general [OF toy_aead_law iv0_length key0_valid] 1 2
    using key0_valid iv0_length by simp
qed

lemma roundtrip_well_formed:
  assumes "\<forall>k iv d. aes_gcm_decrypt pf k iv (aes_gcm_encrypt pf k iv d) = Some d"
    and "length iv = 12"
    and "valid_key_256 K"
    and "list_all code_unit P"
    and "well_formed P"
    and "take 1 P \<noteq> [0xFEFF]"
  shows "decryptForStorage pf (encryptForStorage pf (Some K) iv P) K = Inr P"
  by (simp only: roundtrip_general [OF assms(1-3)] text_roundtrip [OF assms(4-6)])

text \<open>
  Claim C2, as the code has it. For a key of 64 hexadecimal digits and the twelve bytes
  of a fresh IV, decrypting what \<^verbatim>\<open>encryptForStorage\<close> made of a plaintext gives the
  plaintext back when the plaintext, a string of code units of sixteen bits, is
  well formed and does not start with U+FEFF. Of AES-GCM, the platform's, the theorem
  takes that decryption undoes encryption under the same key and IV.
\<close>
theorem encrypt_decrypt_roundtrip:
  assumes "\<forall>k iv d. aes_gcm_decrypt pf k iv (aes_gcm_encrypt pf k iv d) = Some d"
    and "length iv = 12"
    and "valid_key_256 K"
    and "list_all code_unit P"
    and "well_formed P"
    and "take 1 P \<noteq> [0xFEFF]"
  shows "decryptForStorage pf (encryptForStorage pf (Some K) iv P) K = Inr P"
  using assms by (rule roundtrip_well_formed)

text \<open>Claim C2 on a concrete key, IV and plaintext, with the stand-in for AES-GCM.\<close>
theorem encrypt_decrypt_roundtrip_witness:
  "valid_key_256 key0 \<and> length iv0 = 12 \<and> list_all code_unit plain0 \<and> well_formed plain0
   \<and> take 1 plain0 \<noteq> [0xFEFF]
   \<and> decryptForStorage toy_platform (encryptForStorage toy_platform (Some key0) iv0 plain0) key0
      = Inr plain0"
proof -
  have c: "list_all code_unit plain0" by code_simp
  have w: "well_formed plain0" by code_simp
  have b: "take 1 plain0 \<noteq> [0xFEFF]" by code_simp
  show ?thesis
    using encrypt_decrypt_roundtrip [OF toy_aead_law iv0_length key0_valid c w b]
      key0_valid iv0_length c w b
    by simp
qed

lemma decryptForStorage_no_length_check:
  assumes "importKey (parseKey K)" and "decodeBase64 ciphertext = Some combined"
  shows "decryptForStorage pf ciphertext K =
           (case aes_gcm_decrypt pf (parseKey K) (take 12 combined) (drop 12 combined) of
              None \<Rightarrow> Inl (Failed_to_decrypt_data OperationError)
            | Some decrypted \<Rightarrow> Inr (textDecoder_decode decrypted))"
  using assms by (simp add: decryptForStorage_def Let_def)

lemma decryptFromStorage_checks_length:
  assumes "importKey (parseKey K)" and "decodeBase64 data = Some combined" and "data \<noteq> []"
    and "K \<noteq> []" and "length combined < 13"
  shows "decryptFromStorage pf (Some K) data = Inl Invalid_encrypted_payload"
  using assms by (simp add: decryptFromStorage_def Let_def)

text \<open>
  Claim C6, an envelope of three bytes. \<^verbatim>\<open>decryptForStorage\<close> of the transcription
  function has no check of the length: it cuts the bytes like any others and hands them
  to AES-GCM, and the error is the one that wraps the failure of the decryption, with a
  message that starts with \<^verbatim>\<open>Failed to decrypt data:\<close>. \<^verbatim>\<open>decryptFromStorage\<close> of the
  analysis function rejects the same envelope before AES-GCM with
  \<^verbatim>\<open>Invalid encrypted payload.\<close>
\<close>
theorem short_envelope_not_rejected:
  "decodeBase64 (js ''AQID'') = Some [1, 2, 3]
   \<and> decryptForStorage toy_platform (js ''AQID'') key0 = Inl (Failed_to_decrypt_data OperationError)
   \<and> decryptFromStorage toy_platform (Some key0) (js ''AQID'') = Inl Invalid_encrypted_payload
   \<and> take 24 (error_message (\<lambda>c. ''The operation failed'') (Failed_to_decrypt_data OperationError))
       = ''Failed to decrypt data: ''"
proof -
  have d: "decodeBase64 (js ''AQID'') = Some [1, 2, 3]" by code_simp
  have k: "importKey (parseKey key0)" by code_simp
  have n: "js ''AQID'' \<noteq> []" "key0 \<noteq> []" by (simp_all add: js_def key0_def)
  have t: "aes_gcm_decrypt toy_platform (parseKey key0) (take 12 [1, 2, 3]) (drop 12 [1, 2, 3]) = None"
    by (simp add: toy_platform_def toy_decrypt_def)
  show ?thesis
    using k n t by (simp add: d decryptForStorage_def decryptFromStorage_def error_message_def Let_def)
qed

subsection \<open>The maskers\<close>

text \<open>
  Claim C3. The regex masker on the three inputs of the specification. The phone rule
  runs before the person code rule and the card rule and matches any run of six or more
  digits, blanks included: the eleven digits of the person code leave as \<^verbatim>\<open>[PHONE]\<close>
  (with the blank before them), and so do the first three groups of the card number. The
  e-mail address is masked as \<^verbatim>\<open>[EMAIL]\<close>.
\<close>
theorem regex_masker_examples:
  "t_text (maskWithRegex (plain_transcript (js ''mano asmens kodas 12345678901'')))
     = js ''mano asmens kodas[PHONE]''
   \<and> \<not> js_includes (t_text (maskWithRegex (plain_transcript (js ''mano asmens kodas 12345678901''))))
          (js ''[PERSON_CODE]'')
   \<and> t_text (maskWithRegex (plain_transcript (js ''el. pa'' @ [353] @ js ''tas jonas@example.com'')))
     = js ''el. pa'' @ [353] @ js ''tas [EMAIL]''
   \<and> t_text (maskWithRegex (plain_transcript (js ''kortel'' @ [279] @ js '' 4111 1111 1111 1111'')))
     = js ''kortel'' @ [279] @ js ''[PHONE] 1111''
   \<and> \<not> js_includes
          (t_text (maskWithRegex (plain_transcript (js ''kortel'' @ [279] @ js '' 4111 1111 1111 1111''))))
          (js ''[CARD_NUMBER]'')"
  by code_simp


text \<open>
  Claim C4, without an API key: every candidate model fails, and \<^verbatim>\<open>maskPII\<close> throws
  the error of \<^verbatim>\<open>getAI\<close>.
\<close>
theorem maskPII_without_key_counterexample:
  "model_fails (failing_gen ''gemini-2.5-flash-preview-native-audio-dialog'' (js ''labas''))
   \<and> model_fails (failing_gen ''gemini-2.5-pro'' (js ''labas''))
   \<and> maskPII [] failing_gen (plain_transcript (js ''labas'')) = Inl ApiKeyMissing"
  by (simp add: maskPII_def getAI_def model_fails_def failing_gen_def)

lemma tryModels_all_fail:
  "\<forall>m \<in> set names. model_fails (gen m (t_text tr)) \<Longrightarrow> tryModels gen names tr = maskWithRegex tr"
  by (induction names) (auto simp: model_fails_def Let_def split: gen_outcome.splits)

text \<open>
  Claim C4, as the code has it: with an API key, when every candidate model fails (the
  call throws or times out, or the cleaned answer is empty), \<^verbatim>\<open>maskPII\<close> returns
  \<^verbatim>\<open>maskWithRegex\<close> of the same transcription and does not throw.
\<close>
theorem maskPII_fallback:
  assumes "apiKey \<noteq> []"
    and "\<forall>m \<in> set modelNames. model_fails (gen m (t_text tr))"
  shows "maskPII apiKey gen tr = Inr (maskWithRegex tr)"
  using assms by (simp add: maskPII_def getAI_def tryModels_all_fail)

text \<open>Claim C4: the fallback on a transcription, with a key and a generation call that throws.\<close>
theorem maskPII_fallback_witness:
  "js ''k'' \<noteq> []
   \<and> list_all (\<lambda>m. model_fails (failing_gen m (t_text (plain_transcript (js ''labas''))))) modelNames
   \<and> maskPII (js ''k'') failing_gen (plain_transcript (js ''labas''))
       = Inr (maskWithRegex (plain_transcript (js ''labas'')))"
proof -
  have k: "js ''k'' \<noteq> []" by (simp add: js_def)
  have f: "\<forall>m \<in> set modelNames. model_fails (failing_gen m (t_text (plain_transcript (js ''labas''))))"
    by (simp add: model_fails_def failing_gen_def)
  show ?thesis
    using maskPII_fallback [of "js ''k''" failing_gen "plain_transcript (js ''labas'')"] k f
    by (simp add: list_all_iff)
qed

subsection \<open>What the upload function persists\<close>

lemma stringify0_raw0: "stringify0 raw0 = js ''{text:jonas@example.com}''"
  by code_simp

lemma encrypt_raw0:
  "encryptForStorage toy_platform (Some key0) iv0 (js ''{text:jonas@example.com}'')
     = js ''AQIDBAUGBwgJCgsMe3RleHQ6am9uYXNAZXhhbXBsZS5jb219AQIDBAUGBwgJCgsMAAECAw==''"
  by code_simp

lemma envelope_not_plain:
  "js ''AQIDBAUGBwgJCgsMe3RleHQ6am9uYXNAZXhhbXBsZS5jb219AQIDBAUGBwgJCgsMAAECAw==''
     \<noteq> js ''{text:jonas@example.com}''"
  by (simp add: js_def)

lemma stored_raw0:
  "u_transcription (persistTranscription toy_platform (Some key0) iv0 stringify0 raw0)
     = Envelope (js ''AQIDBAUGBwgJCgsMe3RleHQ6am9uYXNAZXhhbXBsZS5jb219AQIDBAUGBwgJCgsMAAECAw=='')"
  by (simp add: persistTranscription_def Let_def stringify0_raw0 encrypt_raw0 envelope_not_plain)

lemma plain_raw0:
  "list_all code_unit (js ''{text:jonas@example.com}'')"
  "well_formed (js ''{text:jonas@example.com}'')"
  "take 1 (js ''{text:jonas@example.com}'') \<noteq> [0xFEFF]"
  by code_simp+

lemma decrypt_raw0:
  "decryptForStorage toy_platform
     (js ''AQIDBAUGBwgJCgsMe3RleHQ6am9uYXNAZXhhbXBsZS5jb219AQIDBAUGBwgJCgsMAAECAw=='') key0
   = Inr (js ''{text:jonas@example.com}'')"
  using roundtrip_well_formed [OF toy_aead_law iv0_length key0_valid plain_raw0]
  by (simp only: encrypt_raw0)

text \<open>
  Claim C1, an upload whose transcription holds an e-mail address, in its text and in
  its one segment, no encryption key configured: the row gets the transcription as it
  is, not the masked one.
\<close>
theorem upload_stores_raw_counterexample:
  "persistTranscription toy_platform None iv0 stringify0 raw0
     = \<lparr>u_transcription = PlainShape raw0, u_status = ''analyzing''\<rparr>
   \<and> t_text raw0 = js ''jonas@example.com''
   \<and> map s_text (t_segments raw0) = [js ''jonas@example.com'']
   \<and> t_text (maskWithRegex raw0) = js ''[EMAIL]''
   \<and> map s_text (t_segments (maskWithRegex raw0)) = [js ''[EMAIL]'']
   \<and> PlainShape raw0 \<noteq> PlainShape (maskWithRegex raw0)"
proof -
  have 1: "t_text raw0 = js ''jonas@example.com''" by code_simp
  have 2: "map s_text (t_segments raw0) = [js ''jonas@example.com'']" by code_simp
  have 3: "t_text (maskWithRegex raw0) = js ''[EMAIL]''" by code_simp
  have 4: "map s_text (t_segments (maskWithRegex raw0)) = [js ''[EMAIL]'']" by code_simp
  have 5: "js ''jonas@example.com'' \<noteq> js ''[EMAIL]''" by (simp add: js_def)
  have 6: "raw0 \<noteq> maskWithRegex raw0" using 1 3 5 by metis
  have 7: "persistTranscription toy_platform None iv0 stringify0 raw0
     = \<lparr>u_transcription = PlainShape raw0, u_status = ''analyzing''\<rparr>"
    by (simp add: persistTranscription_def encryptForStorage_def Let_def)
  show ?thesis using 1 2 3 4 6 7 by simp
qed

text \<open>
  Claim C1, as the code has it: the transcription that the upload function persists is
  the one it built from the model's answer, with its text and segments as they are and
  no masking. The row gets the envelope exactly when \<^verbatim>\<open>encryptForStorage\<close> returned
  another string than the serialised transcription, and the transcription itself
  otherwise, always so when no key is configured. Under a key of 64 hexadecimal digits
  the envelope decrypts to the serialised transcription.
\<close>
theorem upload_persists_raw_transcription:
  "(let raw = \<lparr>t_id = rid, t_text = fullText, t_timestamp = ts,
                 t_language = (case lang of None \<Rightarrow> js ''lt''
                               | Some l \<Rightarrow> (if l \<noteq> [] then l else js ''lt'')),
                 t_segments = segments\<rparr>;
        encrypted = encryptForStorage pf envKey iv (stringify raw)
    in rawTranscriptionForStorage rid fullText ts lang segments = raw
       \<and> persistTranscription pf envKey iv stringify raw
           = \<lparr>u_transcription = (if encrypted \<noteq> stringify raw then Envelope encrypted
                                 else PlainShape raw),
              u_status = ''analyzing''\<rparr>
       \<and> persistTranscription pf None iv stringify raw
           = \<lparr>u_transcription = PlainShape raw, u_status = ''analyzing''\<rparr>
       \<and> ((\<forall>k iv d. aes_gcm_decrypt pf k iv (aes_gcm_encrypt pf k iv d) = Some d)
            \<and> length iv = 12 \<and> envKey = Some K \<and> valid_key_256 K
            \<and> list_all code_unit (stringify raw) \<and> well_formed (stringify raw)
            \<and> take 1 (stringify raw) \<noteq> [0xFEFF]
            \<longrightarrow> decryptForStorage pf encrypted K = Inr (stringify raw)))"
  by (auto simp add: rawTranscriptionForStorage_def persistTranscription_def Let_def
      encryptForStorage_def [of pf None] intro: roundtrip_well_formed)

text \<open>
  Claim C1 with a key: the row gets the envelope, and the envelope decrypts to the
  serialised transcription with the address in it.
\<close>
theorem upload_persists_raw_transcription_witness:
  "(\<forall>k iv d. aes_gcm_decrypt toy_platform k iv (aes_gcm_encrypt toy_platform k iv d) = Some d)
   \<and> length iv0 = 12 \<and> valid_key_256 key0
   \<and> list_all code_unit (stringify0 raw0) \<and> well_formed (stringify0 raw0)
   \<and> take 1 (stringify0 raw0) \<noteq> [0xFEFF]
   \<and> persistTranscription toy_platform (Some key0) iv0 stringify0 raw0
       = \<lparr>u_transcription =
            Envelope (js ''AQIDBAUGBwgJCgsMe3RleHQ6am9uYXNAZXhhbXBsZS5jb219AQIDBAUGBwgJCgsMAAECAw==''),
          u_status = ''analyzing''\<rparr>
   \<and> decryptForStorage toy_platform
        (js ''AQIDBAUGBwgJCgsMe3RleHQ6am9uYXNAZXhhbXBsZS5jb219AQIDBAUGBwgJCgsMAAECAw=='') key0
       = Inr (js ''{text:jonas@example.com}'')"
proof -
  have r: "raw0 = \<lparr>t_id = js ''id1'', t_text = js ''jonas@example.com'', t_timestamp = js ''2026'',
                     t_language = (case None of None \<Rightarrow> js ''lt''
                                   | Some l \<Rightarrow> (if l \<noteq> [] then l else js ''lt'')),
                     t_segments = [\<lparr>speaker = js ''Agentas'', s_text = js ''jonas@example.com'',
                                     startTime = 0, endTime = 2\<rparr>]\<rparr>"
    by (simp add: raw0_def rawTranscriptionForStorage_def)
  show ?thesis
    using upload_persists_raw_transcription
      [of "js ''id1''" "js ''jonas@example.com''" "js ''2026''" None
          "[\<lparr>speaker = js ''Agentas'', s_text = js ''jonas@example.com'', startTime = 0,
             endTime = 2\<rparr>]" toy_platform "Some key0" iv0 stringify0 key0, folded r]
      toy_aead_law iv0_length key0_valid plain_raw0
    by (simp add: Let_def stringify0_raw0 encrypt_raw0 envelope_not_plain)
qed

lemma get_object: "get (JObject kvs) k = Inr (map_of (rev kvs) k)"
  by (simp add: get_def)

lemma get_cases:
  "a \<noteq> JNull \<Longrightarrow> get a k = Inr (case a of JObject kvs \<Rightarrow> map_of (rev kvs) k | _ \<Rightarrow> None)"
  by (cases a) (simp_all add: get_def)

lemma get_null: "get JNull k = Inl TypeError"
  by (simp add: get_def)

lemma build_returns:
  assumes "buildAnalysisResult co rid a = Inr r"
  shows "a \<noteq> JNull"
    and "\<exists>n. normalizeScore co (case a of JObject kvs \<Rightarrow> map_of (rev kvs) (js ''sentimentScore'')
                                   | _ \<Rightarrow> None) = Inr n \<and> sentimentScore r = n"
    and "\<exists>n. normalizeScore co (case a of JObject kvs \<Rightarrow> map_of (rev kvs) (js ''customerSatisfaction'')
                                   | _ \<Rightarrow> None) = Inr n \<and> customerSatisfaction r = n"
    and "\<exists>n. normalizeScore co (case a of JObject kvs \<Rightarrow> map_of (rev kvs) (js ''agentPerformance'')
                                   | _ \<Rightarrow> None) = Inr n \<and> agentPerformance r = n"
    and "\<exists>t. summaryString co (case a of JObject kvs \<Rightarrow> map_of (rev kvs) (js ''summary'')
                                   | _ \<Rightarrow> None) = Inr t \<and> summary r = redactSensitiveSummary t"
proof -
  show n: "a \<noteq> JNull" using assms by (auto simp add: buildAnalysisResult_def get_null)
  note g = get_cases [OF n]
  from assms show
    "\<exists>n. normalizeScore co (case a of JObject kvs \<Rightarrow> map_of (rev kvs) (js ''sentimentScore'')
                                   | _ \<Rightarrow> None) = Inr n \<and> sentimentScore r = n"
    "\<exists>n. normalizeScore co (case a of JObject kvs \<Rightarrow> map_of (rev kvs) (js ''customerSatisfaction'')
                                   | _ \<Rightarrow> None) = Inr n \<and> customerSatisfaction r = n"
    "\<exists>n. normalizeScore co (case a of JObject kvs \<Rightarrow> map_of (rev kvs) (js ''agentPerformance'')
                                   | _ \<Rightarrow> None) = Inr n \<and> agentPerformance r = n"
    "\<exists>t. summaryString co (case a of JObject kvs \<Rightarrow> map_of (rev kvs) (js ''summary'')
                                   | _ \<Rightarrow> None) = Inr t \<and> summary r = redactSensitiveSummary t"
    unfolding buildAnalysisResult_def g
    by (auto simp add: Let_def split: sum.splits)
qed

lemma build_object:
  assumes "normalizeScore co (map_of (rev kvs) (js ''sentimentScore'')) = Inr n1"
    and "normalizeScore co (map_of (rev kvs) (js ''customerSatisfaction'')) = Inr n2"
    and "normalizeScore co (map_of (rev kvs) (js ''agentPerformance'')) = Inr n3"
    and "summaryString co (map_of (rev kvs) (js ''summary'')) = Inr t"
  shows "buildAnalysisResult co rid (JObject kvs) =
     Inr \<lparr>r_id = rid, sentimentScore = n1, customerSatisfaction = n2, agentPerformance = n3,
          warnings = or_empty_array (map_of (rev kvs) (js ''warnings'')),
          summary = redactSensitiveSummary t,
          metrics = or_empty_array (map_of (rev kvs) (js ''metrics'')),
          complianceChecked = True\<rparr>"
  by (simp add: buildAnalysisResult_def get_object Let_def assms)

lemma summaryString_cases:
  "summaryString co x =
     (case x of
        None \<Rightarrow> Inr []
      | Some (JStr s) \<Rightarrow> Inr s
      | Some v \<Rightarrow> (if truthy v then js_String co v else Inr []))"
  by (auto simp add: summaryString_def truthy_def split: option.splits json.splits)

lemma toNumber_primitive:
  "(case v of JArray _ \<Rightarrow> False | JObject _ \<Rightarrow> False | _ \<Rightarrow> True) \<Longrightarrow> \<exists>n. toNumber co v = Inr n"
  by (cases v) (simp_all add: toNumber_def)

lemma normalizeScore_primitive:
  "(case x of Some (JArray _) \<Rightarrow> False | Some (JObject _) \<Rightarrow> False | _ \<Rightarrow> True)
   \<Longrightarrow> \<exists>n. normalizeScore co x = Inr n"
  by (cases x; cases "the x") (auto simp add: normalizeScore_def toNumber_def)

lemma redact0:
  "redactSensitiveSummary (js ''Klientas jonas@example.com patenkintas'')
     = js ''Klientas [EL. PA'' @ [352] @ js ''TAS] patenkintas''"
  by code_simp

lemma analysis0_summary:
  "map_of (rev [(js ''sentimentScore'', JStr (js ''abc'')),
              (js ''customerSatisfaction'', JNum (Num 80)),
              (js ''agentPerformance'', JNum (Num 250)),
              (js ''summary'', JStr (js ''Klientas jonas@example.com patenkintas'')),
              (js ''warnings'', JArray []),
              (js ''metrics'', JArray [])]) (js ''summary'')
   = Some (JStr (js ''Klientas jonas@example.com patenkintas''))"
  by (simp add: js_def)

lemma finish_returns:
  "finishUpload co t rid a fullJsonOf = Inr (upd, resp) \<longleftrightarrow>
     (\<exists>r. buildAnalysisResult co rid a = Inr r
          \<and> upd = \<lparr>f_transcription = t, f_analysis = r, f_status = ''completed''\<rparr>
          \<and> resp = (if usedFallback (fullJsonOf r)
                     then AnalysisMeta
                            \<lparr>m_id = r_id r, m_sentimentScore = sentimentScore r,
                             m_customerSatisfaction = customerSatisfaction r,
                             m_agentPerformance = agentPerformance r,
                             m_warningsCount = length_or_zero (warnings r),
                             m_summaryLength = length (summary r)\<rparr>
                     else FullAnalysis r))"
  by (auto simp add: finishUpload_def Let_def split: sum.splits)

lemma finish_summary:
  assumes "finishUpload co t rid a fullJsonOf = Inr (upd, resp)"
  shows "f_transcription upd = t"
    and "buildAnalysisResult co rid a = Inr (f_analysis upd)"
    and "response_summary resp =
           (if usedFallback (fullJsonOf (f_analysis upd)) then None
            else Some (summary (f_analysis upd)))"
  using assms unfolding finish_returns by (auto simp add: response_summary_def)

text \<open>
  Claim C7. Whenever the upload function produces an analysis, whatever transcription is
  stored beside it: the summary persisted with the analysis is
  \<^verbatim>\<open>redactSensitiveSummary\<close> of the summary that the model generated (of its string
  itself, of nothing when there is none, of \<^verbatim>\<open>String\<close> of another truthy value), and
  the response carries that same summary unless it is the fallback payload, which
  carries only its length. And it does produce the analysis when the answer is an object
  whose summary is a string and whose scores are no arrays or objects.
\<close>
theorem summary_is_redacted:
  "(finishUpload co transcriptionResultForDB rid analysis fullJsonOf = Inr (upd, resp) \<longrightarrow>
      f_transcription upd = transcriptionResultForDB
      \<and> (\<exists>generated.
            (case (case analysis of
                     JObject members \<Rightarrow> map_of (rev members) (js ''summary'')
                   | _ \<Rightarrow> None) of
               None \<Rightarrow> Inr []
             | Some (JStr s) \<Rightarrow> Inr s
             | Some v \<Rightarrow> (if truthy v then js_String co v else Inr [])) = Inr generated
            \<and> summary (f_analysis upd) = redactSensitiveSummary generated)
      \<and> response_summary resp =
          (if usedFallback (fullJsonOf (f_analysis upd)) then None
           else Some (summary (f_analysis upd))))
   \<and> (map_of (rev kvs) (js ''summary'') = Some (JStr s)
       \<and> list_all (\<lambda>k. case map_of (rev kvs) k of
                          Some (JArray _) \<Rightarrow> False | Some (JObject _) \<Rightarrow> False | _ \<Rightarrow> True)
            [js ''sentimentScore'', js ''customerSatisfaction'', js ''agentPerformance'']
       \<longrightarrow> (\<exists>upd resp.
              finishUpload co transcriptionResultForDB rid (JObject kvs) fullJsonOf = Inr (upd, resp)
              \<and> summary (f_analysis upd) = redactSensitiveSummary s))"
proof (intro conjI impI)
  assume r: "finishUpload co transcriptionResultForDB rid analysis fullJsonOf = Inr (upd, resp)"
  note f = finish_summary [OF r]
  show "f_transcription upd = transcriptionResultForDB" by (rule f(1))
  show "response_summary resp =
          (if usedFallback (fullJsonOf (f_analysis upd)) then None
           else Some (summary (f_analysis upd)))" by (rule f(3))
  show "\<exists>generated.
            (case (case analysis of
                     JObject members \<Rightarrow> map_of (rev members) (js ''summary'')
                   | _ \<Rightarrow> None) of
               None \<Rightarrow> Inr []
             | Some (JStr s) \<Rightarrow> Inr s
             | Some v \<Rightarrow> (if truthy v then js_String co v else Inr [])) = Inr generated
            \<and> summary (f_analysis upd) = redactSensitiveSummary generated"
    using build_returns(5) [OF f(2)] unfolding summaryString_cases .
next
  assume a: "map_of (rev kvs) (js ''summary'') = Some (JStr s)
       \<and> list_all (\<lambda>k. case map_of (rev kvs) k of
                          Some (JArray _) \<Rightarrow> False | Some (JObject _) \<Rightarrow> False | _ \<Rightarrow> True)
            [js ''sentimentScore'', js ''customerSatisfaction'', js ''agentPerformance'']"
  then obtain n1 n2 n3 where
    n: "normalizeScore co (map_of (rev kvs) (js ''sentimentScore'')) = Inr n1"
       "normalizeScore co (map_of (rev kvs) (js ''customerSatisfaction'')) = Inr n2"
       "normalizeScore co (map_of (rev kvs) (js ''agentPerformance'')) = Inr n3"
    using normalizeScore_primitive [of "map_of (rev kvs) (js ''sentimentScore'')" co]
      normalizeScore_primitive [of "map_of (rev kvs) (js ''customerSatisfaction'')" co]
      normalizeScore_primitive [of "map_of (rev kvs) (js ''agentPerformance'')" co]
    by auto
  have t: "summaryString co (map_of (rev kvs) (js ''summary'')) = Inr s"
    using a by (simp add: summaryString_cases)
  show "\<exists>upd resp.
          finishUpload co transcriptionResultForDB rid (JObject kvs) fullJsonOf = Inr (upd, resp)
          \<and> summary (f_analysis upd) = redactSensitiveSummary s"
    unfolding finish_returns build_object [OF n t] by simp
qed

text \<open>
  Claim C7 on an answer whose summary holds an e-mail address: the address is gone from
  the persisted summary and from the response.
\<close>
theorem summary_is_redacted_witness:
  "\<exists>upd resp.
     finishUpload co0 (PlainShape raw0) (js ''a1'') analysis0 (\<lambda>r. js ''{}'') = Inr (upd, resp)
     \<and> f_transcription upd = PlainShape raw0
     \<and> summary (f_analysis upd) = js ''Klientas [EL. PA'' @ [352] @ js ''TAS] patenkintas''
     \<and> response_summary resp = Some (js ''Klientas [EL. PA'' @ [352] @ js ''TAS] patenkintas'')"
proof -
  have p: "list_all (\<lambda>k. case map_of (rev [(js ''sentimentScore'', JStr (js ''abc'')),
              (js ''customerSatisfaction'', JNum (Num 80)),
              (js ''agentPerformance'', JNum (Num 250)),
              (js ''summary'', JStr (js ''Klientas jonas@example.com patenkintas'')),
              (js ''warnings'', JArray []),
              (js ''metrics'', JArray [])]) k of
                          Some (JArray _) \<Rightarrow> False | Some (JObject _) \<Rightarrow> False | _ \<Rightarrow> True)
            [js ''sentimentScore'', js ''customerSatisfaction'', js ''agentPerformance'']"
    by (simp add: js_def)
  have f: "\<not> usedFallback (js ''{}'')" by (simp add: usedFallback_def js_def)
  note th = summary_is_redacted [of co0 "PlainShape raw0" "js ''a1''" _ "\<lambda>r. js ''{}''",
      folded analysis0_def]
  from th [THEN conjunct2, rule_format, OF conjI [OF analysis0_summary p], folded analysis0_def]
  obtain upd resp where
    u: "finishUpload co0 (PlainShape raw0) (js ''a1'') analysis0 (\<lambda>r. js ''{}'') = Inr (upd, resp)"
      "summary (f_analysis upd) = redactSensitiveSummary (js ''Klientas jonas@example.com patenkintas'')"
    by blast
  from th [of analysis0 upd resp, THEN conjunct1, rule_format, OF u(1)]
  have v: "f_transcription upd = PlainShape raw0"
    "response_summary resp = (if usedFallback (js ''{}'') then None else Some (summary (f_analysis upd)))"
    by simp_all
  have r: "response_summary resp = Some (js ''Klientas [EL. PA'' @ [352] @ js ''TAS] patenkintas'')"
    using v(2) f by (simp only: u(2) redact0 if_False)
  show ?thesis
    by (rule exI [of _ upd], rule exI [of _ resp], intro conjI, rule u(1), rule v(1),
        simp only: u(2) redact0, rule r)
qed

lemma abc_not_numeric: "string_to_number co (js ''abc'') = NaN"
proof -
  have 1: "trim (js ''abc'') = js ''abc''" by code_simp
  have 2: "ms numeric_literal_re None (js ''abc'') = []" by code_simp
  have 3: "js ''abc'' \<noteq> []" by (simp add: js_def)
  show ?thesis by (simp add: string_to_number_def Let_def 1 2 3)
qed

lemma analysis0_scores:
  "map_of (rev [(js ''sentimentScore'', JStr (js ''abc'')),
              (js ''customerSatisfaction'', JNum (Num 80)),
              (js ''agentPerformance'', JNum (Num 250)),
              (js ''summary'', JStr (js ''Klientas jonas@example.com patenkintas'')),
              (js ''warnings'', JArray []),
              (js ''metrics'', JArray [])]) (js ''sentimentScore'') = Some (JStr (js ''abc''))"
  "map_of (rev [(js ''sentimentScore'', JStr (js ''abc'')),
              (js ''customerSatisfaction'', JNum (Num 80)),
              (js ''agentPerformance'', JNum (Num 250)),
              (js ''summary'', JStr (js ''Klientas jonas@example.com patenkintas'')),
              (js ''warnings'', JArray []),
              (js ''metrics'', JArray [])]) (js ''customerSatisfaction'') = Some (JNum (Num 80))"
  "map_of (rev [(js ''sentimentScore'', JStr (js ''abc'')),
              (js ''customerSatisfaction'', JNum (Num 80)),
              (js ''agentPerformance'', JNum (Num 250)),
              (js ''summary'', JStr (js ''Klientas jonas@example.com patenkintas'')),
              (js ''warnings'', JArray []),
              (js ''metrics'', JArray [])]) (js ''agentPerformance'') = Some (JNum (Num 250))"
  by (simp_all add: js_def)

lemma normalizeScore_string: "normalizeScore co (Some (JStr (js ''abc''))) = Inr NaN"
  by (simp add: normalizeScore_def toNumber_def abc_not_numeric math_min_def math_max_def)

lemma normalizeScore_number:
  "normalizeScore co (Some (JNum (Num x))) = Inr (Num (max 0 (min 100 x)))"
  "normalizeScore co (Some (JNum PosInfinity)) = Inr (Num 100)"
  "normalizeScore co (Some (JNum NegInfinity)) = Inr (Num 0)"
  "normalizeScore co None = Inr (Num 50)"
  "normalizeScore co (Some JNull) = Inr (Num 50)"
  by (auto simp add: normalizeScore_def toNumber_def math_min_def math_max_def)

lemma normalizeScore_in_range:
  assumes "case x of None \<Rightarrow> True | Some JNull \<Rightarrow> True | Some (JNum n) \<Rightarrow> n \<noteq> NaN | Some _ \<Rightarrow> False"
  shows "\<exists>n. normalizeScore co x = Inr n \<and> in_range n"
  using assms
  by (cases x; cases "the x"; cases "case the x of JNum n \<Rightarrow> n | _ \<Rightarrow> NaN")
     (auto simp add: normalizeScore_number in_range_def)

lemma numeric_scores_in_range:
  assumes "finishUpload co t rid (JObject kvs) fullJsonOf = Inr (upd, resp)"
    and "list_all (\<lambda>k. case map_of (rev kvs) k of
                         None \<Rightarrow> True | Some JNull \<Rightarrow> True | Some (JNum n) \<Rightarrow> n \<noteq> NaN
                       | Some _ \<Rightarrow> False)
           [js ''sentimentScore'', js ''customerSatisfaction'', js ''agentPerformance'']"
  shows "list_all in_range [sentimentScore (f_analysis upd), customerSatisfaction (f_analysis upd),
                            agentPerformance (f_analysis upd)]"
    and "list_all in_range (response_scores resp)"
proof -
  note b = build_returns [OF finish_summary(2) [OF assms(1)], unfolded json.case]
  from assms(2) have
    "\<exists>n. normalizeScore co (map_of (rev kvs) (js ''sentimentScore'')) = Inr n \<and> in_range n"
    "\<exists>n. normalizeScore co (map_of (rev kvs) (js ''customerSatisfaction'')) = Inr n \<and> in_range n"
    "\<exists>n. normalizeScore co (map_of (rev kvs) (js ''agentPerformance'')) = Inr n \<and> in_range n"
    by (simp_all add: normalizeScore_in_range)
  with b(2,3,4) show
    s: "list_all in_range [sentimentScore (f_analysis upd), customerSatisfaction (f_analysis upd),
                            agentPerformance (f_analysis upd)]"
    by auto
  from assms(1) s show "list_all in_range (response_scores resp)"
    unfolding finish_returns by (auto simp add: response_scores_def)
qed

text \<open>
  Claim C10, an answer whose \<^verbatim>\<open>sentimentScore\<close> is the string \<^verbatim>\<open>"abc"\<close>:
  \<^verbatim>\<open>Math.min\<close> turns it into \<^verbatim>\<open>NaN\<close>, which passes both clamps, and the analysis that is
  persisted and returned has a score that is no number from 0 to 100. The two other
  scores, numbers, are clamped.
\<close>
theorem score_not_a_number:
  "\<exists>upd resp.
     finishUpload co transcriptionResultForDB rid analysis0 fullJsonOf = Inr (upd, resp)
     \<and> sentimentScore (f_analysis upd) = NaN
     \<and> \<not> in_range (sentimentScore (f_analysis upd))
     \<and> customerSatisfaction (f_analysis upd) = Num 80
     \<and> agentPerformance (f_analysis upd) = Num 100
     \<and> response_scores resp = [NaN, Num 80, Num 100]"
proof -
  have s: "summaryString co (map_of (rev [(js ''sentimentScore'', JStr (js ''abc'')),
              (js ''customerSatisfaction'', JNum (Num 80)),
              (js ''agentPerformance'', JNum (Num 250)),
              (js ''summary'', JStr (js ''Klientas jonas@example.com patenkintas'')),
              (js ''warnings'', JArray []),
              (js ''metrics'', JArray [])]) (js ''summary''))
           = Inr (js ''Klientas jonas@example.com patenkintas'')"
    unfolding analysis0_summary by (simp add: summaryString_cases)
  have n: "normalizeScore co (Some (JNum (Num 80))) = Inr (Num 80)"
    "normalizeScore co (Some (JNum (Num 250))) = Inr (Num 100)"
    by (simp_all add: normalizeScore_number)
  note b = build_object [OF normalizeScore_string [folded analysis0_scores(1)]
      n(1) [folded analysis0_scores(2)] n(2) [folded analysis0_scores(3)] s, folded analysis0_def]
  show ?thesis
    unfolding finish_returns b by (simp add: response_scores_def in_range_def)
qed

subsection \<open>The read path and the delete path\<close>

lemma returnTranscription_status: "status (returnTranscription env t) \<noteq> 403"
  by (auto simp: returnTranscription_def respond_def
      split: stored_transcription.splits option.splits sum.splits)

lemma read_never_forbidden: "status (serveTranscription env recs req) \<noteq> 403"
  by (auto simp: serveTranscription_def respond_def returnTranscription_status
      split: option.splits sum.splits)

lemma read_found:
  assumes "meth req = ''GET'' \<or> meth req = ''POST''" and "authHeader req = Some h"
    and "getUser env h = Some u"
    and "recordId req = i" and "i \<noteq> []" and "i \<noteq> ''transcription''"
  shows "serveTranscription env recs req =
           (case select_single (select_policy env u) recs i of
              None \<Rightarrow> respond 404 (ErrorBody ''Transcription not found'')
            | Some data \<Rightarrow>
                (case rec_transcription data of
                   None \<Rightarrow>
                     (if meth req = ''GET''
                      then respond 404 (ErrorBody ''Transcription not available for this record'')
                      else
                        (case regenerate env data of
                           Inl msg \<Rightarrow> respond 500 (ErrorBody msg)
                         | Inr t \<Rightarrow> respond 200 (TranscriptionBody t)))
                 | Some t \<Rightarrow> returnTranscription env t))"
  using assms by (auto simp add: serveTranscription_def split: option.splits)

lemma deleteRow_status: "status (fst (deleteRow env d u i r)) \<noteq> 403"
  by (auto simp: deleteRow_def Let_def respond_def split: option.splits list.splits)

lemma delete_found:
  assumes "d_meth req = ''POST''" and "d_authHeader req = Some h" and "configured env"
    and "d_getUser env h = User u" and "body_id req = Some i" and "i \<noteq> []"
  shows "deleteRecord env d req =
           (case select_single (\<lambda>r. serviceRoleKey env \<or> d_select_policy env u r) (records d) i of
              None \<Rightarrow> (respond 404 (ErrorBody ''Record not found''), d)
            | Some record \<Rightarrow>
                (if user_id record \<noteq> Some u \<and> \<not> isAdmin env d u
                 then (respond 403 (ErrorBody ''Forbidden''), d)
                 else deleteRow env d u i record))"
  using assms by (simp add: deleteRecord_def)

text \<open>
  Claim C8, a record of alice read by bob, who is no admin, under the row-level policy
  of the migration: the answer is 404 \<^verbatim>\<open>Transcription not found\<close>, the same as for an id
  that has no record.
\<close>
theorem read_by_other_user_counterexample:
  "user_id alice_record = Some ''alice''
   \<and> records0 ''r1'' = Some alice_record
   \<and> records0 ''r2'' = None
   \<and> getUser read_env0 ''Bearer bob'' = Some ''bob''
   \<and> serveTranscription read_env0 records0 (read_request ''bob'' ''r1'')
       = respond 404 (ErrorBody ''Transcription not found'')
   \<and> serveTranscription read_env0 records0 (read_request ''bob'' ''r2'')
       = respond 404 (ErrorBody ''Transcription not found'')"
  by (simp add: serveTranscription_def read_env0_def records0_def read_request_def alice_record_def
      token_user_def own_or_admin_def profiles0_def select_single_def)

text \<open>
  Claim C8, as the code has it. The read handler has no check of ownership or role and
  never answers 403; the row-level policy of the database decides. Under the policy of
  the migration a caller who is neither the owner nor an admin gets the 404 of a record
  that does not exist, and the owner and an admin get 200 with the transcription, read
  from the row or decrypted from its envelope. The delete handler does check: for a
  record that its lookup finds, a caller who is neither the owner nor an admin gets 403
  \<^verbatim>\<open>Forbidden\<close> and nothing changes; the owner and an admin pass the check and the
  deletion goes on.
\<close>
theorem authorization_matrix:
  assumes "meth rreq = ''GET'' \<or> meth rreq = ''POST''" and "authHeader rreq = Some h"
    and "getUser renv h = Some u"
    and "recordId rreq = i" and "i \<noteq> []" and "i \<noteq> ''transcription''"
    and "select_policy renv = own_or_admin profs"
    and "d_meth req = ''POST''" and "d_authHeader req = Some h'" and "configured env"
    and "d_getUser env h' = User u'" and "body_id req = Some i'" and "i' \<noteq> []"
    and "select_single (\<lambda>r. serviceRoleKey env \<or> d_select_policy env u' r) (records d) i' = Some r'"
  shows "status (serveTranscription renv recs rreq) \<noteq> 403
    \<and> (user_id r \<noteq> Some u \<and> profs u \<noteq> Some ''admin''
          \<longrightarrow> serveTranscription renv (recs(i \<mapsto> r)) rreq
                = respond 404 (ErrorBody ''Transcription not found'')
              \<and> serveTranscription renv (recs(i := None)) rreq
                = respond 404 (ErrorBody ''Transcription not found''))
    \<and> ((user_id r = Some u \<or> profs u = Some ''admin'')
          \<and> rec_transcription r = Some (PlainShape t)
          \<longrightarrow> serveTranscription renv (recs(i \<mapsto> r)) rreq = respond 200 (TranscriptionBody t))
    \<and> ((user_id r = Some u \<or> profs u = Some ''admin'')
          \<and> rec_transcription r = Some (Envelope data) \<and> data \<noteq> []
          \<and> encryption_key renv = Some K \<and> K \<noteq> []
          \<and> decryptForStorage (crypto renv) data K = Inr decrypted
          \<and> json_parse renv decrypted = Some t
          \<longrightarrow> serveTranscription renv (recs(i \<mapsto> r)) rreq = respond 200 (TranscriptionBody t))
    \<and> (user_id r' \<noteq> Some u' \<and> \<not> isAdmin env d u'
          \<longrightarrow> deleteRecord env d req = (respond 403 (ErrorBody ''Forbidden''), d))
    \<and> (user_id r' = Some u' \<or> isAdmin env d u'
          \<longrightarrow> deleteRecord env d req = deleteRow env d u' i' r'
              \<and> status (fst (deleteRecord env d req)) \<noteq> 403)"
proof (intro conjI impI)
  show "status (serveTranscription renv recs rreq) \<noteq> 403" by (rule read_never_forbidden)
next
  assume "user_id r \<noteq> Some u \<and> profs u \<noteq> Some ''admin''"
  then show "serveTranscription renv (recs(i \<mapsto> r)) rreq
             = respond 404 (ErrorBody ''Transcription not found'')"
    by (simp add: read_found [OF assms(1-6)] assms(7) select_single_def own_or_admin_def)
next
  show "serveTranscription renv (recs(i := None)) rreq
        = respond 404 (ErrorBody ''Transcription not found'')"
    by (simp add: read_found [OF assms(1-6)] select_single_def)
next
  assume "(user_id r = Some u \<or> profs u = Some ''admin'') \<and> rec_transcription r = Some (PlainShape t)"
  then show "serveTranscription renv (recs(i \<mapsto> r)) rreq = respond 200 (TranscriptionBody t)"
    by (auto simp add: read_found [OF assms(1-6)] assms(7) select_single_def own_or_admin_def
        returnTranscription_def)
next
  assume "(user_id r = Some u \<or> profs u = Some ''admin'')
          \<and> rec_transcription r = Some (Envelope data) \<and> data \<noteq> []
          \<and> encryption_key renv = Some K \<and> K \<noteq> []
          \<and> decryptForStorage (crypto renv) data K = Inr decrypted
          \<and> json_parse renv decrypted = Some t"
  then show "serveTranscription renv (recs(i \<mapsto> r)) rreq = respond 200 (TranscriptionBody t)"
    by (auto simp add: read_found [OF assms(1-6)] assms(7) select_single_def own_or_admin_def
        returnTranscription_def)
next
  assume "user_id r' \<noteq> Some u' \<and> \<not> isAdmin env d u'"
  then show "deleteRecord env d req = (respond 403 (ErrorBody ''Forbidden''), d)"
    by (simp add: delete_found [OF assms(8-13)] assms(14))
next
  assume a: "user_id r' = Some u' \<or> isAdmin env d u'"
  then show e: "deleteRecord env d req = deleteRow env d u' i' r'"
    by (auto simp add: delete_found [OF assms(8-13)] assms(14))
  show "status (fst (deleteRecord env d req)) \<noteq> 403"
    unfolding e by (rule deleteRow_status)
qed

lemma alice_stored:
  "rec_transcription alice_record
     = Some (Envelope (js ''AQIDBAUGBwgJCgsMe3RleHQ6am9uYXNAZXhhbXBsZS5jb219AQIDBAUGBwgJCgsMAAECAw==''))"
  by (simp add: alice_record_def stored_raw0)

lemma alice_owner: "user_id alice_record = Some ''alice''"
  by (simp add: alice_record_def)

lemma parse_raw0: "json_parse read_env0 (js ''{text:jonas@example.com}'') = Some raw0"
  by (simp add: read_env0_def parse0_def stringify0_raw0)

lemma records0_r1: "records0 = Map.empty(''r1'' \<mapsto> alice_record)"
  by (simp add: records0_def)

text \<open>
  Claim C8 on a record of alice, stored encrypted by the upload: bob gets 404 on reading
  and 403 on deleting, alice and the admin get the decrypted transcription and may
  delete.
\<close>
theorem authorization_matrix_witness:
  "serveTranscription read_env0 records0 (read_request ''bob'' ''r1'')
     = respond 404 (ErrorBody ''Transcription not found'')
   \<and> serveTranscription read_env0 records0 (read_request ''alice'' ''r1'')
       = respond 200 (TranscriptionBody raw0)
   \<and> serveTranscription read_env0 records0 (read_request ''root'' ''r1'')
       = respond 200 (TranscriptionBody raw0)
   \<and> deleteRecord delete_env0 db0 (delete_request0 ''bob'' ''r1'')
       = (respond 403 (ErrorBody ''Forbidden''), db0)
   \<and> fst (deleteRecord delete_env0 db0 (delete_request0 ''alice'' ''r1'')) = respond 200 OkBody
   \<and> fst (deleteRecord delete_env0 db0 (delete_request0 ''root'' ''r1'')) = respond 200 OkBody"
proof -
  have s: "select_single (\<lambda>r. serviceRoleKey delete_env0 \<or> d_select_policy delete_env0 ''bob'' r)
             (records db0) ''r1'' = Some alice_record"
    by (simp add: select_single_def delete_env0_def db0_def records0_def)
  have nb: "user_id alice_record \<noteq> Some ''bob'' \<and> \<not> isAdmin delete_env0 db0 ''bob''"
    by (simp add: alice_record_def isAdmin_def db0_def profiles0_def)
  have pb: "profiles0 ''bob'' \<noteq> Some ''admin''" "profiles0 ''root'' = Some ''admin''"
    by (simp_all add: profiles0_def)
  have env: "select_policy read_env0 = own_or_admin profiles0" "encryption_key read_env0 = Some key0"
    "crypto read_env0 = toy_platform"
    by (simp_all add: read_env0_def)
  have ne: "js ''AQIDBAUGBwgJCgsMe3RleHQ6am9uYXNAZXhhbXBsZS5jb219AQIDBAUGBwgJCgsMAAECAw=='' \<noteq> []"
    "key0 \<noteq> []"
    by (simp_all add: js_def key0_def)
  have rq: "meth (read_request who ''r1'') = ''GET'' \<or> meth (read_request who ''r1'') = ''POST''"
    "authHeader (read_request who ''r1'') = Some (''Bearer '' @ who)"
    "recordId (read_request who ''r1'') = ''r1''" "''r1'' \<noteq> []" "''r1'' \<noteq> ''transcription''"
    for who
    by (simp_all add: read_request_def)
  have us: "getUser read_env0 (''Bearer '' @ ''bob'') = Some ''bob''"
    "getUser read_env0 (''Bearer '' @ ''alice'') = Some ''alice''"
    "getUser read_env0 (''Bearer '' @ ''root'') = Some ''root''"
    by (simp_all add: read_env0_def token_user_def)
  have dq: "d_meth (delete_request0 ''bob'' ''r1'') = ''POST''"
    "d_authHeader (delete_request0 ''bob'' ''r1'') = Some ''Bearer bob''"
    "configured delete_env0" "d_getUser delete_env0 ''Bearer bob'' = User ''bob''"
    "body_id (delete_request0 ''bob'' ''r1'') = Some ''r1''"
    by (simp_all add: delete_request0_def delete_env0_def token_auth_def token_user_def)
  note m = authorization_matrix [OF rq(1,2) _ rq(3,4,5) env(1) dq rq(4) s,
      where recs = Map.empty and r = alice_record and t = raw0
        and data = "js ''AQIDBAUGBwgJCgsMe3RleHQ6am9uYXNAZXhhbXBsZS5jb219AQIDBAUGBwgJCgsMAAECAw==''"
        and K = key0 and decrypted = "js ''{text:jonas@example.com}''", folded records0_r1]
  have 1: "serveTranscription read_env0 records0 (read_request ''bob'' ''r1'')
             = respond 404 (ErrorBody ''Transcription not found'')"
    using m [OF us(1)] pb by (simp add: alice_owner)
  have 2: "serveTranscription read_env0 records0 (read_request ''alice'' ''r1'')
             = respond 200 (TranscriptionBody raw0)"
    using m [OF us(2)] by (simp add: alice_owner alice_stored env ne decrypt_raw0 parse_raw0)
  have 3: "serveTranscription read_env0 records0 (read_request ''root'' ''r1'')
             = respond 200 (TranscriptionBody raw0)"
    using m [OF us(3)] by (simp add: pb alice_stored env ne decrypt_raw0 parse_raw0)
  have 4: "deleteRecord delete_env0 db0 (delete_request0 ''bob'' ''r1'')
             = (respond 403 (ErrorBody ''Forbidden''), db0)"
    using m [OF us(1)] nb by simp
  have 5: "fst (deleteRecord delete_env0 db0 (delete_request0 ''alice'' ''r1'')) = respond 200 OkBody"
    by (simp add: deleteRecord_def deleteRow_def delete_request0_def delete_env0_def token_auth_def
        token_user_def select_single_def db0_def records0_def alice_owner isAdmin_def Let_def)
  have 6: "fst (deleteRecord delete_env0 db0 (delete_request0 ''root'' ''r1'')) = respond 200 OkBody"
    by (simp add: deleteRecord_def deleteRow_def delete_request0_def delete_env0_def token_auth_def
        token_user_def select_single_def db0_def records0_def alice_owner isAdmin_def Let_def
        profiles0_def)
  from 1 2 3 4 5 6 show ?thesis by (intro conjI)
qed

text \<open>
  Claim C9, a delete request for an id that has no row, and the same request repeated
  after it succeeded: both are answered with 404.
\<close>
theorem delete_missing_counterexample:
  "records db0 ''missing'' = None
   \<and> deleteRecord delete_env0 db0 (delete_request0 ''alice'' ''missing'')
       = (respond 404 (ErrorBody ''Record not found''), db0)
   \<and> fst (deleteRecord delete_env0 db0 (delete_request0 ''alice'' ''r1'')) = respond 200 OkBody
   \<and> fst (deleteRecord delete_env0 (snd (deleteRecord delete_env0 db0 (delete_request0 ''alice'' ''r1'')))
            (delete_request0 ''alice'' ''r1''))
       = respond 404 (ErrorBody ''Record not found'')"
  by (simp add: deleteRecord_def deleteRow_def delete_request0_def delete_env0_def token_auth_def
        token_user_def select_single_def db0_def records0_def alice_owner isAdmin_def Let_def)

lemma deleteRow_ok_hidden:
  "status (fst (deleteRow env d u i r)) = 200 \<Longrightarrow>
   select_single (\<lambda>r. serviceRoleKey env \<or> d_select_policy env u r)
     (records (snd (deleteRow env d u i r))) i = None"
  by (auto simp: deleteRow_def Let_def respond_def select_single_def
      split: option.splits if_splits list.splits)

lemma deleteRow_vanished:
  "delete_error env = None \<Longrightarrow>
   records (meanwhile env (if serviceRoleKey env \<and> audio_id r \<noteq> []
                           then d\<lparr>files := storage_remove env (audio_id r) (files d)\<rparr> else d)) i
     = None \<Longrightarrow>
   fst (deleteRow env d u i r) = respond 200 OkBody"
  by (simp add: deleteRow_def Let_def select_single_def)

lemma deleteRow_deletes:
  "delete_error env = None
   \<and> records (meanwhile env (if serviceRoleKey env \<and> audio_id r \<noteq> []
                               then d\<lparr>files := storage_remove env (audio_id r) (files d)\<rparr> else d)) i
       = Some r2
   \<and> (serviceRoleKey env \<or> d_delete_policy env u r2) \<Longrightarrow>
   fst (deleteRow env d u i r) = respond 200 OkBody
   \<and> records (snd (deleteRow env d u i r)) i = None"
  by (auto simp add: deleteRow_def Let_def)

lemma deleteRow_blocked:
  "delete_error env = None \<Longrightarrow> \<not> serviceRoleKey env \<Longrightarrow>
   records (meanwhile env d) i = Some r' \<Longrightarrow> \<not> d_delete_policy env u r' \<Longrightarrow>
   d_select_policy env u r' \<Longrightarrow>
   deleteRow env d u i r =
     (respond 500 (ErrorBody ''Record exists but deletion was blocked. Check RLS policies.''),
      meanwhile env d)"
  by (simp add: deleteRow_def Let_def select_single_def)

text \<open>
  Claim C9, as the code has it: for an authenticated caller, a delete request for an id
  without a row is answered with 404 \<^verbatim>\<open>Record not found\<close> and changes nothing; the same
  request again after one that succeeded gets that 404. A row that the lookup found and
  that is gone when the \<^verbatim>\<open>DELETE\<close> runs, removed by another request in the meantime,
  is taken as deleted: the answer is 200, as it is when the \<^verbatim>\<open>DELETE\<close> removes the
  row.
\<close>
theorem delete_of_missing_row:
  assumes "d_meth req = ''POST''" and "d_authHeader req = Some h" and "configured env"
    and "d_getUser env h = User u" and "body_id req = Some i" and "i \<noteq> []"
  shows "(records d i = None
            \<longrightarrow> deleteRecord env d req = (respond 404 (ErrorBody ''Record not found''), d))
    \<and> (status (fst (deleteRecord env d req)) = 200
            \<longrightarrow> deleteRecord env (snd (deleteRecord env d req)) req
                  = (respond 404 (ErrorBody ''Record not found''), snd (deleteRecord env d req)))
    \<and> (select_single (\<lambda>r. serviceRoleKey env \<or> d_select_policy env u r) (records d) i = Some r
        \<and> (user_id r = Some u \<or> isAdmin env d u)
        \<and> delete_error env = None
        \<and> records (meanwhile env
                     (if serviceRoleKey env \<and> audio_id r \<noteq> []
                      then d\<lparr>files := storage_remove env (audio_id r) (files d)\<rparr> else d)) i
            = None
            \<longrightarrow> fst (deleteRecord env d req) = respond 200 OkBody)
    \<and> (select_single (\<lambda>r. serviceRoleKey env \<or> d_select_policy env u r) (records d) i = Some r
        \<and> (user_id r = Some u \<or> isAdmin env d u)
        \<and> delete_error env = None
        \<and> records (meanwhile env
                     (if serviceRoleKey env \<and> audio_id r \<noteq> []
                      then d\<lparr>files := storage_remove env (audio_id r) (files d)\<rparr> else d)) i
            = Some r2
        \<and> (serviceRoleKey env \<or> d_delete_policy env u r2)
            \<longrightarrow> fst (deleteRecord env d req) = respond 200 OkBody
              \<and> records (snd (deleteRecord env d req)) i = None)"
proof (intro conjI impI)
  assume "records d i = None"
  then show "deleteRecord env d req = (respond 404 (ErrorBody ''Record not found''), d)"
    by (simp add: delete_found [OF assms] select_single_def)
next
  assume ok: "status (fst (deleteRecord env d req)) = 200"
  have "select_single (\<lambda>r. serviceRoleKey env \<or> d_select_policy env u r)
          (records (snd (deleteRecord env d req))) i = None"
  proof (cases "select_single (\<lambda>r. serviceRoleKey env \<or> d_select_policy env u r) (records d) i")
    case None
    then show ?thesis by (simp add: delete_found [OF assms])
  next
    case (Some r)
    with ok deleteRow_ok_hidden [of env d u i r] show ?thesis
      by (auto simp add: delete_found [OF assms] respond_def split: if_splits)
  qed
  then show "deleteRecord env (snd (deleteRecord env d req)) req
             = (respond 404 (ErrorBody ''Record not found''), snd (deleteRecord env d req))"
    by (simp add: delete_found [OF assms, of "snd (deleteRecord env d req)"])
next
  assume "select_single (\<lambda>r. serviceRoleKey env \<or> d_select_policy env u r) (records d) i = Some r
        \<and> (user_id r = Some u \<or> isAdmin env d u)
        \<and> delete_error env = None
        \<and> records (meanwhile env
                     (if serviceRoleKey env \<and> audio_id r \<noteq> []
                      then d\<lparr>files := storage_remove env (audio_id r) (files d)\<rparr> else d)) i
            = None"
  then show "fst (deleteRecord env d req) = respond 200 OkBody"
    by (auto simp add: delete_found [OF assms] deleteRow_vanished)
next
  assume a: "select_single (\<lambda>r. serviceRoleKey env \<or> d_select_policy env u r) (records d) i = Some r
        \<and> (user_id r = Some u \<or> isAdmin env d u)
        \<and> delete_error env = None
        \<and> records (meanwhile env
                     (if serviceRoleKey env \<and> audio_id r \<noteq> []
                      then d\<lparr>files := storage_remove env (audio_id r) (files d)\<rparr> else d)) i
            = Some r2
        \<and> (serviceRoleKey env \<or> d_delete_policy env u r2)"
  then have e: "deleteRecord env d req = deleteRow env d u i r"
    by (auto simp add: delete_found [OF assms])
  from a show "fst (deleteRecord env d req) = respond 200 OkBody"
    unfolding e by (rule deleteRow_deletes [THEN conjunct1, OF conjunct2 [OF conjunct2]])
  from a show "records (snd (deleteRecord env d req)) i = None"
    unfolding e by (rule deleteRow_deletes [THEN conjunct2, OF conjunct2 [OF conjunct2]])
qed

text \<open>
  Claim C9 on an id that has no row, on a record deleted twice, and on a record that
  another request deletes between the lookup and the \<^verbatim>\<open>DELETE\<close>.
\<close>
theorem delete_of_missing_row_witness:
  "records db0 ''missing'' = None
   \<and> deleteRecord delete_env0 db0 (delete_request0 ''alice'' ''missing'')
       = (respond 404 (ErrorBody ''Record not found''), db0)
   \<and> status (fst (deleteRecord delete_env0 db0 (delete_request0 ''alice'' ''r1''))) = 200
   \<and> deleteRecord delete_env0 (snd (deleteRecord delete_env0 db0 (delete_request0 ''alice'' ''r1'')))
        (delete_request0 ''alice'' ''r1'')
       = (respond 404 (ErrorBody ''Record not found''),
          snd (deleteRecord delete_env0 db0 (delete_request0 ''alice'' ''r1'')))
   \<and> records db0 ''r1'' = Some alice_record
   \<and> records (meanwhile delete_env1 db0) ''r1'' = None
   \<and> fst (deleteRecord delete_env1 db0 (delete_request0 ''alice'' ''r1'')) = respond 200 OkBody"
proof -
  have dq: "d_meth (delete_request0 ''alice'' j) = ''POST''"
    "d_authHeader (delete_request0 ''alice'' j) = Some ''Bearer alice''"
    "body_id (delete_request0 ''alice'' j) = Some j" for j
    by (simp_all add: delete_request0_def)
  have e0: "configured delete_env0" "d_getUser delete_env0 ''Bearer alice'' = User ''alice''"
    by (simp_all add: delete_env0_def token_auth_def token_user_def)
  have e1: "configured delete_env1" "d_getUser delete_env1 ''Bearer alice'' = User ''alice''"
    "delete_error delete_env1 = None" "serviceRoleKey delete_env1"
    "storage_remove delete_env1 = keep_files"
    by (simp_all add: delete_env1_def delete_env0_def token_auth_def token_user_def)
  have m: "records db0 ''missing'' = None" by (simp add: db0_def records0_def)
  have r: "records db0 ''r1'' = Some alice_record" by (simp add: db0_def records0_def)
  have ok: "status (fst (deleteRecord delete_env0 db0 (delete_request0 ''alice'' ''r1''))) = 200"
    by (simp add: deleteRecord_def deleteRow_def delete_request0_def delete_env0_def token_auth_def
        token_user_def select_single_def db0_def records0_def alice_owner isAdmin_def Let_def
        respond_def)
  have s1: "select_single (\<lambda>r. serviceRoleKey delete_env1 \<or> d_select_policy delete_env1 ''alice'' r)
              (records db0) ''r1'' = Some alice_record"
    by (simp add: select_single_def e1 r)
  have v: "records (meanwhile delete_env1 db0) ''r1'' = None"
    by (simp add: delete_env1_def)
  have v': "records (meanwhile delete_env1
                      (if serviceRoleKey delete_env1 \<and> audio_id alice_record \<noteq> []
                       then db0\<lparr>files := storage_remove delete_env1 (audio_id alice_record) (files db0)\<rparr>
                       else db0)) ''r1'' = None"
    by (simp add: delete_env1_def)
  have 1: "deleteRecord delete_env0 db0 (delete_request0 ''alice'' ''missing'')
             = (respond 404 (ErrorBody ''Record not found''), db0)"
    using delete_of_missing_row [OF dq(1,2) e0 dq(3), of "''missing''" db0] m by simp
  have 2: "deleteRecord delete_env0 (snd (deleteRecord delete_env0 db0 (delete_request0 ''alice'' ''r1'')))
             (delete_request0 ''alice'' ''r1'')
           = (respond 404 (ErrorBody ''Record not found''),
              snd (deleteRecord delete_env0 db0 (delete_request0 ''alice'' ''r1'')))"
    using delete_of_missing_row [OF dq(1,2) e0 dq(3), of "''r1''" db0] ok by simp
  have 3: "fst (deleteRecord delete_env1 db0 (delete_request0 ''alice'' ''r1'')) = respond 200 OkBody"
    using delete_of_missing_row [OF dq(1,2) e1(1,2) dq(3), of "''r1''" db0 alice_record]
      s1 v' e1(3) alice_owner
    by simp
  from m 1 ok 2 r v 3 show ?thesis by (intro conjI)
qed

subsection \<open>The matcher and the scan of a global replacement\<close>

lemma prev_after_append: "prev_after (prev_after p u) w = prev_after p (u @ w)"
  by (simp add: prev_after_def)

lemma prev_after_Cons: "prev_after p (c # w) = prev_after (Some c) w"
  by (simp add: prev_after_def)


lemma rep_sem:
  "set (rep m n k p s) =
     {(prev_after p w, rest) | w rest. s = w @ rest \<and> list_all (\<lambda>c. in_cls c k) w
        \<and> count_ok m n (length w)}"
proof (induction m n k p s rule: rep.induct)
  case (1 m n k p)
  show ?case by (auto simp: count_ok_def prev_after_def split: option.splits)
next
  case (2 m n k p c cs)
  have step: "count_ok m n (Suc l) \<longleftrightarrow> n \<noteq> Some 0 \<and> count_ok (m - 1) (map_option (\<lambda>j. j - 1) n) l" for l
    by (cases n) (auto simp: count_ok_def)
  show ?case (is "?L = ?R")
  proof (intro set_eqI iffI)
    fix x assume "x \<in> ?L"
    then consider (more) "in_cls c k" "n \<noteq> Some 0"
        "x \<in> set (rep (m - 1) (map_option (\<lambda>j. j - 1) n) k (Some c) cs)"
      | (stop) "m = 0" "x = (p, c # cs)"
      by (auto split: if_splits)
    then show "x \<in> ?R"
    proof cases
      case more
      with 2 obtain w rest where w: "x = (prev_after (Some c) w, rest)" "cs = w @ rest"
        "list_all (\<lambda>c. in_cls c k) w" "count_ok (m - 1) (map_option (\<lambda>j. j - 1) n) (length w)"
        by auto
      with more have "x = (prev_after p (c # w), rest)" "c # cs = (c # w) @ rest"
        "list_all (\<lambda>c. in_cls c k) (c # w)" "count_ok m n (length (c # w))"
        by (simp_all add: prev_after_Cons step)
      then show ?thesis by blast
    next
      case stop
      then have "x = (prev_after p [], c # cs) \<and> c # cs = [] @ c # cs
          \<and> list_all (\<lambda>c. in_cls c k) [] \<and> count_ok m n (length ([]::jsstring))"
        by (auto simp: prev_after_def count_ok_def split: option.splits)
      then show ?thesis by blast
    qed
  next
    fix x assume "x \<in> ?R"
    then obtain w rest where w: "x = (prev_after p w, rest)" "c # cs = w @ rest"
      "list_all (\<lambda>c. in_cls c k) w" "count_ok m n (length w)" by blast
    show "x \<in> ?L"
    proof (cases w)
      case Nil
      with w show ?thesis by (auto simp: count_ok_def prev_after_def)
    next
      case (Cons c' w')
      with w have c: "c' = c" "cs = w' @ rest" "in_cls c k" "list_all (\<lambda>c. in_cls c k) w'"
        "n \<noteq> Some 0" "count_ok (m - 1) (map_option (\<lambda>j. j - 1) n) (length w')"
        using step [of "length w'"] by auto
      then have "(prev_after (Some c) w', rest) \<in> set (rep (m - 1) (map_option (\<lambda>j. j - 1) n) k (Some c) cs)"
        using 2 by auto
      with c w Cons show ?thesis by (auto simp: prev_after_Cons)
    qed
  qed
qed

lemma ms_sem:
  "set (ms r p s) = {(prev_after p w, rest) | w rest. s = w @ rest \<and> sem r p w rest}"
proof (induction r arbitrary: p s)
  case Eps
  show ?case by (auto simp: prev_after_def)
next
  case (Cls k)
  show ?case by (cases s) (auto simp: prev_after_def)
next
  case (Seq a b)
  show ?case (is "?L = ?R")
  proof (intro set_eqI iffI)
    fix x assume "x \<in> ?L"
    then obtain p1 s1 where 1: "(p1, s1) \<in> set (ms a p s)" "x \<in> set (ms b p1 s1)" by auto
    from 1(1) Seq(1) obtain w1 where w1: "p1 = prev_after p w1" "s = w1 @ s1" "sem a p w1 s1" by auto
    from 1(2) Seq(2) obtain w2 rest where w2: "x = (prev_after p1 w2, rest)" "s1 = w2 @ rest"
      "sem b p1 w2 rest" by auto
    from w1 w2 have "x = (prev_after p (w1 @ w2), rest)" "s = (w1 @ w2) @ rest"
      "sem (Seq a b) p (w1 @ w2) rest"
      by (auto simp: prev_after_append)
    then show "x \<in> ?R" by blast
  next
    fix x assume "x \<in> ?R"
    then obtain w rest where w: "x = (prev_after p w, rest)" "s = w @ rest" "sem (Seq a b) p w rest"
      by blast
    then obtain w1 w2 where s: "w = w1 @ w2" "sem a p w1 (w2 @ rest)" "sem b (prev_after p w1) w2 rest"
      by auto
    with w have "(prev_after p w1, w2 @ rest) \<in> set (ms a p s)" using Seq(1) by auto
    moreover have "(prev_after (prev_after p w1) w2, rest) \<in> set (ms b (prev_after p w1) (w2 @ rest))"
      using s Seq(2) by auto
    ultimately show "x \<in> ?L" using w s by (force simp: prev_after_append)
  qed
next
  case (Alt a b)
  then show ?case by auto
next
  case (Opt a)
  then show ?case by (auto simp: prev_after_def)
next
  case (Rep m n k)
  show ?case by (simp add: rep_sem)
next
  case WordB
  show ?case by (auto simp: prev_after_def)
next
  case Bol
  show ?case by (auto simp: prev_after_def)
next
  case Eol
  show ?case by (auto simp: prev_after_def)
qed



lemma in_cls_Nil: "\<not> in_cls c []"
  by (simp add: in_cls_def)






lemma ms_Cons_sem:
  assumes "ms r p s = st # xs"
  shows "\<exists>w. s = w @ snd st \<and> sem r p w (snd st) \<and> fst st = prev_after p w"
proof -
  from assms have "st \<in> set (ms r p s)" by simp
  then show ?thesis unfolding ms_sem by auto
qed












lemma replace_set: "set (replace r (\<lambda>_. ph) p s) \<subseteq> set s \<union> set ph"
proof (induction s arbitrary: p rule: length_induct)
  case (1 s)
  show ?case
  proof (cases s)
    case Nil
    then show ?thesis by (auto split: list.splits)
  next
    case (Cons c cs)
    have cs: "set (replace r (\<lambda>_. ph) (Some c) cs) \<subseteq> set cs \<union> set ph"
      using 1 Cons by simp
    show ?thesis
    proof (cases "ms r p (c # cs)")
      case Nil
      with Cons cs show ?thesis by auto
    next
      case (Cons st xs)
      from ms_Cons_sem [OF Cons] obtain m where m: "c # cs = m @ snd st" by blast
      then have sub: "set (snd st) \<subseteq> set s" using \<open>s = c # cs\<close> by (metis set_append Un_upper2)
      show ?thesis
      proof (cases "length (snd st) < length (c # cs)")
        case True
        then have "set (replace r (\<lambda>_. ph) (fst st) (snd st)) \<subseteq> set (snd st) \<union> set ph"
          using 1 \<open>s = c # cs\<close> by simp
        with Cons True sub \<open>s = c # cs\<close> show ?thesis by auto
      next
        case False
        with Cons cs \<open>s = c # cs\<close> show ?thesis by auto
      qed
    qed
  qed
qed













































lemma placeholders_stable:
  "maskSegmentText (js ''[EMAIL]'') = js ''[EMAIL]''"
  "maskSegmentText (js ''[PHONE]'') = js ''[PHONE]''"
  "maskSegmentText (js ''[PERSON_CODE]'') = js ''[PERSON_CODE]''"
  "maskSegmentText (js ''[CARD_NUMBER]'') = js ''[CARD_NUMBER]''"
  "maskSegmentText (js ''[ACCOUNT_NUMBER]'') = js ''[ACCOUNT_NUMBER]''"
  by code_simp+



end
